theory Spec2Isabelle
  imports Complex_Main "HOL-Library.Word"
begin

section \<open>The Tracker effect of libopenshot (src/effects/Tracker.cpp)\<close>

text \<open>
  The effect owns a store of tracked boxes (\<open>trackedData\<close>), five keyframe curves, a base
  frame rate, a time scale and the path of the protobuf file the boxes were read from.
  A stored coordinate and a curve value are modelled as the real number the \<open>float\<close> or
  \<open>double\<close> holds (no NaN, no infinity), frame numbers as unbounded integers.  The
  floating-point arithmetic and the cast to \<open>int\<close> of \<open>GetFrame\<close> are parameters of the
  model.  Console output and the global \<open>ShutdownProtobufLibrary\<close> call are not part of
  the modelled state.
\<close>

subsection \<open>Exceptions and actions that may throw\<close>

text \<open>
  Every exception class of the code base and of jsoncpp derives from \<open>std::exception\<close>,
  which is what the handler of \<open>Tracker::SetJson\<close> catches.
\<close>

datatype exception = Json_LogicError | InvalidJSON | NotFound | Std_exception

text \<open>
  A member function that mutates an object and may throw: the object after the call,
  and the exception that left the call, if any.  The mutations made before a throw stay.
\<close>

type_synonym 's action = "'s \<Rightarrow> 's \<times> exception option"

definition ok :: "'s action" where
  "ok s = (s, None)"

definition throw :: "exception \<Rightarrow> 's action" where
  "throw e s = (s, Some e)"

definition assign :: "('s \<Rightarrow> 's) \<Rightarrow> 's action" where
  "assign f s = (f s, None)"

text \<open>Evaluate an expression that may throw, then continue with its value.\<close>

definition eval_then :: "exception + 'a \<Rightarrow> ('a \<Rightarrow> 's action) \<Rightarrow> 's action" where
  "eval_then r f s = (case r of Inl e \<Rightarrow> (s, Some e) | Inr v \<Rightarrow> f v s)"

text \<open>Statements in sequence: the first exception ends the sequence.\<close>

fun run :: "'s action list \<Rightarrow> 's action" where
  "run [] s = (s, None)"
| "run (a # as) s = (case a s of (s', None) \<Rightarrow> run as s' | (s', Some e) \<Rightarrow> (s', Some e))"

text \<open>\<open>try { body } catch (const std::exception& e) { handler }\<close>\<close>

definition try_catch :: "'s action \<Rightarrow> (exception \<Rightarrow> 's action) \<Rightarrow> 's action" where
  "try_catch body handler s =
     (case body s of (s', None) \<Rightarrow> (s', None) | (s', Some e) \<Rightarrow> handler e s')"

text \<open>An action keeps a part of the object; an action never throws.\<close>

definition keeps :: "('s \<Rightarrow> 'a) \<Rightarrow> 's action \<Rightarrow> bool" where
  "keeps part a = (\<forall>s. part (fst (a s)) = part s)"

definition never_throws :: "'s action \<Rightarrow> bool" where
  "never_throws a = (\<forall>s. snd (a s) = None)"

subsection \<open>Json::Value (jsoncpp), as far as the effect reads it\<close>

datatype json =
    JNull
  | JBool bool
  | JInt int
  | JReal real
  | JString string
  | JArray "json list"
  | JObject "(string \<times> json) list"

definition isNull :: "json \<Rightarrow> bool" where
  "isNull v = (v = JNull)"

fun isObject :: "json \<Rightarrow> bool" where
  "isObject (JObject kvs) = True"
| "isObject _ = False"

text \<open>
  \<open>root[key]\<close> on a const value: the member, the null value when the object has no
  such member or is itself null, and a logic error on any other type.
\<close>

fun member :: "json \<Rightarrow> string \<Rightarrow> exception + json" where
  "member JNull key = Inr JNull"
| "member (JObject kvs) key = Inr (case map_of kvs key of None \<Rightarrow> JNull | Some v \<Rightarrow> v)"
| "member _ key = Inl Json_LogicError"

text \<open>
  The integer part of a number, towards zero: what jsoncpp's \<open>asInt\<close> returns for a real
  value, after its test that the value lies in the range of \<open>int\<close>.
\<close>

definition int_cast :: "real \<Rightarrow> int" where
  "int_cast r = (if 0 \<le> r then \<lfloor>r\<rfloor> else \<lceil>r\<rceil>)"

fun asInt :: "json \<Rightarrow> exception + int" where
  "asInt JNull = Inr 0"
| "asInt (JBool b) = Inr (if b then 1 else 0)"
| "asInt (JInt i) = (if - (2 ^ 31) \<le> i \<and> i \<le> 2 ^ 31 - 1 then Inr i else Inl Json_LogicError)"
| "asInt (JReal r) =
     (if - (2 ^ 31) \<le> r \<and> r \<le> 2 ^ 31 - 1 then Inr (int_cast r) else Inl Json_LogicError)"
| "asInt _ = Inl Json_LogicError"

fun asDouble :: "json \<Rightarrow> exception + real" where
  "asDouble JNull = Inr 0"
| "asDouble (JBool b) = Inr (if b then 1 else 0)"
| "asDouble (JInt i) = Inr (of_int i)"
| "asDouble (JReal r) = Inr r"
| "asDouble _ = Inl Json_LogicError"

text \<open>
  \<open>asString\<close>; the text jsoncpp prints for a number (\<open>valueToString\<close>) is a parameter.
\<close>

fun asString :: "(json \<Rightarrow> string) \<Rightarrow> json \<Rightarrow> exception + string" where
  "asString valueToString JNull = Inr ''''"
| "asString valueToString (JString s) = Inr s"
| "asString valueToString (JBool b) = Inr (if b then ''true'' else ''false'')"
| "asString valueToString (JInt i) = Inr (valueToString (JInt i))"
| "asString valueToString (JReal r) = Inr (valueToString (JReal r))"
| "asString valueToString _ = Inl Json_LogicError"

subsection \<open>The store of tracked boxes\<close>

record BBox =
  cx :: real
  cy :: real
  width :: real
  height :: real

record Fraction =
  num :: int
  den :: int

text \<open>
  Modelled from the spec: the class of \<open>trackedData\<close> (KeyFrameBBox) is declared and
  defined outside src/effects/Tracker.cpp.  The spec's TrackedBoxStore is a sparse mapping
  from frame index to sample, kept here as a list ordered by frame index (the spec's
  design note asks for an ordered map), with a nominal base frame rate and the last
  applied time-scale factor.
\<close>

record KeyFrameBBox =
  boxes :: "(int \<times> BBox) list"
  base_rate :: Fraction
  time_scale :: real

text \<open>Storing under a key: in the place the order gives, instead of a sample with that key.\<close>

fun insert_box :: "int \<Rightarrow> BBox \<Rightarrow> (int \<times> BBox) list \<Rightarrow> (int \<times> BBox) list" where
  "insert_box k b [] = [(k, b)]"
| "insert_box k b ((k', b') # xs) =
     (if k < k' then (k, b) # (k', b') # xs
      else if k = k' then (k, b) # xs
      else (k', b') # insert_box k b xs)"

text \<open>Modelled from the spec: \<open>clear()\<close> removes all samples.\<close>

definition clear :: "KeyFrameBBox \<Rightarrow> KeyFrameBBox" where
  "clear s = s\<lparr>boxes := []\<rparr>"

text \<open>
  Modelled from the spec: \<open>add_sample(frame_id, corner_x, corner_y, width, height)\<close>
  stores the sample at \<open>frame_id\<close>, overwriting a sample already there.  The spec's
  condition that the four raw corner coordinates be non-negative is a condition on
  \<open>x1, y1, x2, y2\<close>, which this operation does not receive: the loader checks it before
  the call (the spec's "accepted record"), and the spec's property that \<open>contains(id)\<close>
  is true for each added id puts no condition on the sign of what is added.
\<close>

definition AddBox :: "int \<Rightarrow> real \<Rightarrow> real \<Rightarrow> real \<Rightarrow> real \<Rightarrow> KeyFrameBBox \<Rightarrow> KeyFrameBBox" where
  "AddBox frame_num x y w h s =
     s\<lparr>boxes := insert_box frame_num \<lparr>cx = x, cy = y, width = w, height = h\<rparr> (boxes s)\<rparr>"

text \<open>Modelled from the spec: \<open>contains(frame_id)\<close> is exact-key membership.\<close>

definition Contains :: "KeyFrameBBox \<Rightarrow> int \<Rightarrow> bool" where
  "Contains s frame_num = (map_of (boxes s) frame_num \<noteq> None)"

text \<open>
  Modelled from the spec: \<open>get(frame_id)\<close> is defined only when the key is present and
  raises a not-found error on an absent key.
\<close>

definition GetValue :: "KeyFrameBBox \<Rightarrow> int \<Rightarrow> exception + BBox" where
  "GetValue s frame_num =
     (case map_of (boxes s) frame_num of None \<Rightarrow> Inl NotFound | Some b \<Rightarrow> Inr b)"

text \<open>Modelled from the spec: \<open>set_base_rate(rate)\<close> records the rate and nothing else.\<close>

definition SetBaseFPS :: "Fraction \<Rightarrow> KeyFrameBBox \<Rightarrow> KeyFrameBBox" where
  "SetBaseFPS fps s = s\<lparr>base_rate := fps\<rparr>"

text \<open>
  Modelled from the spec: \<open>rescale(factor)\<close> multiplies every stored key by the factor,
  rounds to the nearest frame and rewrites the store under the new keys, in ascending
  order of the original keys, so that of two colliding samples the later one stays.
\<close>

fun rescale_into :: "real \<Rightarrow> (int \<times> BBox) list \<Rightarrow> (int \<times> BBox) list \<Rightarrow> (int \<times> BBox) list" where
  "rescale_into factor [] acc = acc"
| "rescale_into factor ((k, b) # xs) acc =
     rescale_into factor xs (insert_box (round (of_int k * factor)) b acc)"

definition ScalePoints :: "real \<Rightarrow> KeyFrameBBox \<Rightarrow> KeyFrameBBox" where
  "ScalePoints factor s = s\<lparr>boxes := rescale_into factor (boxes s) [], time_scale := factor\<rparr>"

subsection \<open>The protobuf message of a track file\<close>

record pbBox =
  box_x1 :: real
  box_y1 :: real
  box_x2 :: real
  box_y2 :: real

record pbFrame =
  frame_id :: int
  frame_rotation :: real
  bounding_box :: pbBox

record TrackerMessage =
  frames :: "pbFrame list"
  last_updated :: "nat option"

subsection \<open>The effect and what it calls\<close>

text \<open>
  \<open>'b\<close> is the state of the parent class EffectBase, \<open>'k\<close> a keyframe curve (class
  Keyframe); both classes are defined outside Tracker.cpp.
\<close>

record ('b, 'k) Tracker =
  base :: 'b
  trackedData :: KeyFrameBBox
  BaseFPS :: Fraction
  TimeScale :: real
  protobuf_data_path :: string
  delta_x :: 'k
  delta_y :: 'k
  scale_x :: 'k
  scale_y :: 'k
  rotation :: 'k

text \<open>
  What the effect calls and Tracker.cpp does not define:
  \<^item> \<open>ParseFromIstream\<close>: the message parsed from the file at a path, \<open>None\<close> when the
    stream cannot be read or parsed (the call returns false);
  \<^item> \<open>EffectBase_SetJsonValue\<close> and \<open>Keyframe_SetJsonValue\<close>: the parent's and a curve's
    loading of a JSON value;
  \<^item> \<open>Keyframe_GetValue\<close>: the value of a curve at a frame;
  \<^item> \<open>parse_json\<close>: the jsoncpp reader, \<open>None\<close> when the text is rejected;
  \<^item> \<open>valueToString\<close>: the text jsoncpp prints for a number.
\<close>

record ('b, 'k) env =
  ParseFromIstream :: "string \<Rightarrow> TrackerMessage option"
  EffectBase_SetJsonValue :: "json \<Rightarrow> 'b action"
  Keyframe_SetJsonValue :: "json \<Rightarrow> 'k action"
  Keyframe_GetValue :: "'k \<Rightarrow> int \<Rightarrow> real"
  parse_json :: "string \<Rightarrow> json option"
  valueToString :: "json \<Rightarrow> string"

subsection \<open>Tracker::LoadTrackedData\<close>

text \<open>The test of line 148 on the four raw corners of a record.\<close>

definition accepted :: "pbFrame \<Rightarrow> bool" where
  "accepted pbFrameData =
     (let box = bounding_box pbFrameData
      in box_x1 box \<ge> 0 \<and> box_y1 box \<ge> 0 \<and> box_x2 box \<ge> 0 \<and> box_y2 box \<ge> 0)"

text \<open>
  The body of the loop over the frames of the message (lines 133 to 151); the rotation
  is read and not used.
\<close>

definition load_frame :: "pbFrame \<Rightarrow> KeyFrameBBox \<Rightarrow> KeyFrameBBox" where
  "load_frame pbFrameData s =
     (let frame_num = frame_id pbFrameData;
          box = bounding_box pbFrameData;
          x1 = box_x1 box; y1 = box_y1 box; x2 = box_x2 box; y2 = box_y2 box
      in if x1 \<ge> 0 \<and> y1 \<ge> 0 \<and> x2 \<ge> 0 \<and> y2 \<ge> 0
         then AddBox frame_num x1 y1 (x2 - x1) (y2 - y1) s
         else s)"

definition LoadTrackedData ::
  "('b, 'k) env \<Rightarrow> string \<Rightarrow> ('b, 'k) Tracker \<Rightarrow> bool \<times> ('b, 'k) Tracker" where
  "LoadTrackedData E inputFilePath t =
     (case ParseFromIstream E inputFilePath of
        None \<Rightarrow> (False, t)
      | Some trackerMessage \<Rightarrow>
          (True, t\<lparr>trackedData := fold load_frame (frames trackerMessage) (clear (trackedData t))\<rparr>))"

subsection \<open>Tracker::GetTrackedData\<close>

definition GetTrackedData :: "('b, 'k) Tracker \<Rightarrow> int \<Rightarrow> exception + BBox" where
  "GetTrackedData t frameId = GetValue (trackedData t) frameId"

subsection \<open>Tracker::SetJsonValue\<close>

text \<open>\<open>if (!root[key].isNull()) body(root[key])\<close>\<close>

definition if_member :: "json \<Rightarrow> string \<Rightarrow> (json \<Rightarrow> 's action) \<Rightarrow> 's action" where
  "if_member jroot key body =
     eval_then (member jroot key) (\<lambda>v. if \<not> isNull v then body v else ok)"

text \<open>Line 219: the parent's part of the object.\<close>

definition set_parent :: "('b, 'k) env \<Rightarrow> json \<Rightarrow> ('b, 'k) Tracker action" where
  "set_parent E jroot t =
     (case EffectBase_SetJsonValue E jroot (base t) of (b, e) \<Rightarrow> (t\<lparr>base := b\<rparr>, e))"

text \<open>Lines 221 to 226.\<close>

definition set_BaseFPS :: "json \<Rightarrow> ('b, 'k) Tracker action" where
  "set_BaseFPS jroot =
     eval_then (member jroot ''BaseFPS'') (\<lambda>fps.
       if \<not> isNull fps \<and> isObject fps then
         run [
           if_member fps ''num'' (\<lambda>n. eval_then (asInt n) (\<lambda>i.
             assign (\<lambda>t. t\<lparr>BaseFPS := (BaseFPS t)\<lparr>num := i\<rparr>\<rparr>))),
           if_member fps ''den'' (\<lambda>d. eval_then (asInt d) (\<lambda>i.
             assign (\<lambda>t. t\<lparr>BaseFPS := (BaseFPS t)\<lparr>den := i\<rparr>\<rparr>)))]
       else ok)"

text \<open>Lines 228 to 230.\<close>

definition set_TimeScale :: "json \<Rightarrow> ('b, 'k) Tracker action" where
  "set_TimeScale jroot =
     if_member jroot ''TimeScale'' (\<lambda>v. eval_then (asDouble v) (\<lambda>d.
       assign (\<lambda>t. t\<lparr>TimeScale := d\<rparr>)))"

text \<open>Lines 232 and 233: run on every call, whatever the document holds.\<close>

definition scale_trackedData :: "('b, 'k) Tracker action" where
  "scale_trackedData =
     assign (\<lambda>t. t\<lparr>trackedData := ScalePoints (TimeScale t) (SetBaseFPS (BaseFPS t) (trackedData t))\<rparr>)"

text \<open>Lines 236 to 243.\<close>

definition load_from_path :: "('b, 'k) env \<Rightarrow> string \<Rightarrow> ('b, 'k) Tracker action" where
  "load_from_path E path t =
     (let t1 = t\<lparr>protobuf_data_path := path\<rparr>;
          (loaded, t2) = LoadTrackedData E (protobuf_data_path t1) t1
      in if \<not> loaded then (t2\<lparr>protobuf_data_path := ''''\<rparr>, None) else (t2, None))"

definition set_protobuf_data_path :: "('b, 'k) env \<Rightarrow> json \<Rightarrow> ('b, 'k) Tracker action" where
  "set_protobuf_data_path E jroot =
     if_member jroot ''protobuf_data_path'' (\<lambda>v.
       eval_then (asString (valueToString E) v) (load_from_path E))"

text \<open>Lines 245 to 254: one curve, read with \<open>get\<close> and written back with \<open>put\<close>.\<close>

definition set_curve ::
  "('b, 'k) env \<Rightarrow> json \<Rightarrow> string \<Rightarrow> (('b, 'k) Tracker \<Rightarrow> 'k) \<Rightarrow>
   ('k \<Rightarrow> ('b, 'k) Tracker \<Rightarrow> ('b, 'k) Tracker) \<Rightarrow> ('b, 'k) Tracker action" where
  "set_curve E jroot key get put =
     if_member jroot key (\<lambda>v t.
       case Keyframe_SetJsonValue E v (get t) of (k, e) \<Rightarrow> (put k t, e))"

definition SetJsonValue :: "('b, 'k) env \<Rightarrow> json \<Rightarrow> ('b, 'k) Tracker action" where
  "SetJsonValue E jroot =
     run [
       set_parent E jroot,
       set_BaseFPS jroot,
       set_TimeScale jroot,
       scale_trackedData,
       set_protobuf_data_path E jroot,
       set_curve E jroot ''delta_x'' delta_x (\<lambda>k t. t\<lparr>delta_x := k\<rparr>),
       set_curve E jroot ''delta_y'' delta_y (\<lambda>k t. t\<lparr>delta_y := k\<rparr>),
       set_curve E jroot ''scale_x'' scale_x (\<lambda>k t. t\<lparr>scale_x := k\<rparr>),
       set_curve E jroot ''scale_y'' scale_y (\<lambda>k t. t\<lparr>scale_y := k\<rparr>),
       set_curve E jroot ''rotation'' rotation (\<lambda>k t. t\<lparr>rotation := k\<rparr>)]"

subsection \<open>Tracker::SetJson\<close>

text \<open>
  Modelled from the spec: \<open>openshot::stringToJson\<close> is defined outside Tracker.cpp; a
  text the reader rejects is a data-validation failure raised to the caller.
\<close>

definition stringToJson :: "('b, 'k) env \<Rightarrow> string \<Rightarrow> exception + json" where
  "stringToJson E v = (case parse_json E v of None \<Rightarrow> Inl InvalidJSON | Some jroot \<Rightarrow> Inr jroot)"

definition SetJson :: "('b, 'k) env \<Rightarrow> string \<Rightarrow> ('b, 'k) Tracker action" where
  "SetJson E v =
     try_catch (eval_then (stringToJson E v) (SetJsonValue E)) (\<lambda>e. throw InvalidJSON)"

subsection \<open>Tracker::GetFrame\<close>

text \<open>
  An OpenCV image: its size and, in the order they were drawn, the rectangles drawn on
  its pixels (corner and size in pixels, colour, thickness, line type).
\<close>

type_synonym int32 = "32 word"

datatype Rect = Rect (rect_x: int32) (rect_y: int32) (rect_width: int32) (rect_height: int32)

datatype drawing = Rectangle Rect "nat \<times> nat \<times> nat" nat nat

record Mat =
  cols :: nat
  rows :: nat
  drawn :: "drawing list"

definition Mat_empty :: "Mat \<Rightarrow> bool" where
  "Mat_empty m = (cols m = 0 \<or> rows m = 0)"

definition cv_rectangle :: "Rect \<Rightarrow> nat \<times> nat \<times> nat \<Rightarrow> nat \<Rightarrow> nat \<Rightarrow> Mat \<Rightarrow> Mat" where
  "cv_rectangle box colour thickness lineType img =
     img\<lparr>drawn := drawn img @ [Rectangle box colour thickness lineType]\<rparr>"

record Frame =
  imagecv :: Mat

text \<open>
  The floating-point arithmetic of lines 83 to 100, as the machine does it.  Nothing is
  assumed about its rounding, about NaN and infinity, or about the cast of a double that
  an \<open>int\<close> does not hold: \<open>'d\<close> is the type of the machine's doubles, and
  \<^item> \<open>float_of_int\<close> is the \<open>float\<close> that \<open>float fw = frame_image.size().width\<close> stores;
  \<^item> \<open>double_of\<close> is the double that an operand of type \<open>float\<close> or \<open>double\<close> is
    promoted to;
  \<^item> \<open>double_add\<close> and \<open>double_mul\<close> are \<open>+\<close> and \<open>*\<close> on doubles;
  \<^item> \<open>int_of_double\<close> is the cast \<open>(int)\<close>, a 32-bit value read with \<open>sint\<close>.
\<close>

record 'd arithmetic =
  float_of_int :: "nat \<Rightarrow> real"
  double_of :: "real \<Rightarrow> 'd"
  double_add :: "'d \<Rightarrow> 'd \<Rightarrow> 'd"
  double_mul :: "'d \<Rightarrow> 'd \<Rightarrow> 'd"
  int_of_double :: "'d \<Rightarrow> int32"

text \<open>
  One coordinate of the box of lines 97 to 100, \<open>(int)((fd.cx + delta_x) * fw)\<close>: the
  \<open>float\<close> of the sample and the \<open>double\<close> of the curve are added as doubles, the sum is
  multiplied as a double by the \<open>float\<close> size of the image, and the product is cast.
\<close>

definition pixel :: "'d arithmetic \<Rightarrow> real \<Rightarrow> real \<Rightarrow> real \<Rightarrow> int32" where
  "pixel A coordinate offset size_px =
     int_of_double A
       (double_mul A (double_add A (double_of A coordinate) (double_of A offset))
          (double_of A size_px))"

text \<open>The box of lines 97 to 100, in pixels of an image \<open>fw\<close> wide and \<open>fh\<close> high.\<close>

definition pixel_box ::
  "'d arithmetic \<Rightarrow> BBox \<Rightarrow> real \<Rightarrow> real \<Rightarrow> real \<Rightarrow> real \<Rightarrow> real \<Rightarrow> real \<Rightarrow> Rect" where
  "pixel_box A fd dx dy sx sy fw fh =
     Rect (pixel A (cx fd) dx fw)
          (pixel A (cy fd) dy fh)
          (pixel A (width fd) sx fw)
          (pixel A (height fd) sy fh)"

definition GetFrame ::
  "'d arithmetic \<Rightarrow> ('b, 'k) env \<Rightarrow> ('b, 'k) Tracker \<Rightarrow> int \<Rightarrow> Frame action" where
  "GetFrame A E t frame_number frame =
     (let frame_image = imagecv frame in
      if \<not> Mat_empty frame_image then
        if Contains (trackedData t) frame_number then
          let fw = float_of_int A (cols frame_image);
              fh = float_of_int A (rows frame_image);
              sx = Keyframe_GetValue E (scale_x t) frame_number;
              sy = Keyframe_GetValue E (scale_y t) frame_number;
              dx = Keyframe_GetValue E (delta_x t) frame_number;
              dy = Keyframe_GetValue E (delta_y t) frame_number
          in case GetValue (trackedData t) frame_number of
               Inl e \<Rightarrow> (frame, Some e)
             | Inr fd \<Rightarrow>
                 (frame\<lparr>imagecv :=
                    cv_rectangle (pixel_box A fd dx dy sx sy fw fh) (255, 0, 0) 2 1 frame_image\<rparr>,
                  None)
        else (frame\<lparr>imagecv := frame_image\<rparr>, None)
      else (frame\<lparr>imagecv := frame_image\<rparr>, None))"

subsection \<open>What a load stores\<close>

text \<open>The call of line 149 for one record, and the sample it stores.\<close>

definition sample_of :: "pbFrame \<Rightarrow> BBox" where
  "sample_of pbFrameData =
     (let box = bounding_box pbFrameData
      in \<lparr>cx = box_x1 box, cy = box_y1 box,
          width = box_x2 box - box_x1 box, height = box_y2 box - box_y1 box\<rparr>)"

definition add_record :: "pbFrame \<Rightarrow> KeyFrameBBox \<Rightarrow> KeyFrameBBox" where
  "add_record pbFrameData s =
     (let box = bounding_box pbFrameData
      in AddBox (frame_id pbFrameData) (box_x1 box) (box_y1 box)
           (box_x2 box - box_x1 box) (box_y2 box - box_y1 box) s)"

text \<open>A record with some corner coordinate below zero, and one whose corners are reversed.\<close>

definition negative_corner :: "pbFrame \<Rightarrow> bool" where
  "negative_corner pbFrameData =
     (let box = bounding_box pbFrameData
      in box_x1 box < 0 \<or> box_y1 box < 0 \<or> box_x2 box < 0 \<or> box_y2 box < 0)"

definition reversed_corners :: "pbFrame \<Rightarrow> bool" where
  "reversed_corners pbFrameData =
     (let box = bounding_box pbFrameData
      in box_x2 box < box_x1 box \<or> box_y2 box < box_y1 box)"

text \<open>The store keeps its samples in strictly ascending order of their frame index.\<close>

definition ordered_store :: "KeyFrameBBox \<Rightarrow> bool" where
  "ordered_store s = sorted_wrt (<) (map fst (boxes s))"

subsection \<open>The configuration document of the spec\<close>

text \<open>
  The spec's words for the recognized keys: the track path is a string, the base rate a
  numerator/denominator pair (of integers an \<open>int\<close> holds), the time scale a number and
  each of the five curves a document its loader takes.  What the parent's loader does
  with the document is no part of this.
\<close>

definition fits_int :: "json \<Rightarrow> bool" where
  "fits_int v = (case v of JInt i \<Rightarrow> - (2 ^ 31) \<le> i \<and> i \<le> 2 ^ 31 - 1 | _ \<Rightarrow> False)"

definition is_rate_pair :: "json \<Rightarrow> bool" where
  "is_rate_pair v =
     (case v of
        JObject kvs \<Rightarrow>
          (case (map_of kvs ''num'', map_of kvs ''den'') of
             (Some n, Some d) \<Rightarrow> fits_int n \<and> fits_int d
           | _ \<Rightarrow> False)
      | _ \<Rightarrow> False)"

definition is_number :: "json \<Rightarrow> bool" where
  "is_number v = (case v of JInt i \<Rightarrow> True | JReal r \<Rightarrow> True | _ \<Rightarrow> False)"

definition is_string :: "json \<Rightarrow> bool" where
  "is_string v = (case v of JString s \<Rightarrow> True | _ \<Rightarrow> False)"

definition curve_keys :: "string list" where
  "curve_keys = [''delta_x'', ''delta_y'', ''scale_x'', ''scale_y'', ''rotation'']"

definition recognized_keys :: "string list" where
  "recognized_keys = [''protobuf_data_path'', ''BaseFPS'', ''TimeScale''] @ curve_keys"

definition no_recognized_key :: "json \<Rightarrow> bool" where
  "no_recognized_key doc = list_all (\<lambda>key. member doc key = Inr JNull) recognized_keys"

definition key_ok :: "(string \<times> json) list \<Rightarrow> string \<Rightarrow> (json \<Rightarrow> bool) \<Rightarrow> bool" where
  "key_ok kvs key good = (case map_of kvs key of None \<Rightarrow> True | Some v \<Rightarrow> good v)"

definition well_formed_beside_rate :: "('b, 'k) env \<Rightarrow> json \<Rightarrow> bool" where
  "well_formed_beside_rate E doc =
     (case doc of
        JObject kvs \<Rightarrow>
          key_ok kvs ''protobuf_data_path'' is_string \<and>
          key_ok kvs ''TimeScale'' is_number \<and>
          list_all (\<lambda>key. key_ok kvs key (\<lambda>v. \<forall>k. snd (Keyframe_SetJsonValue E v k) = None))
            curve_keys
      | _ \<Rightarrow> False)"

definition well_formed_rate :: "json \<Rightarrow> bool" where
  "well_formed_rate doc =
     (case doc of JObject kvs \<Rightarrow> key_ok kvs ''BaseFPS'' is_rate_pair | _ \<Rightarrow> False)"

definition well_formed_document :: "('b, 'k) env \<Rightarrow> json \<Rightarrow> bool" where
  "well_formed_document E doc = (well_formed_rate doc \<and> well_formed_beside_rate E doc)"

text \<open>A document whose value under \<open>BaseFPS\<close> is not an object.\<close>

definition rate_not_object :: "json \<Rightarrow> bool" where
  "rate_not_object doc =
     (case member doc ''BaseFPS'' of Inl e \<Rightarrow> False | Inr fps \<Rightarrow> \<not> isObject fps)"

text \<open>
  What makes \<open>SetJsonValue\<close> throw by itself: a document that is neither an object nor
  null, and a value under \<open>TimeScale\<close>, \<open>protobuf_data_path\<close> or \<open>num\<close> and \<open>den\<close> of an
  object under \<open>BaseFPS\<close> that jsoncpp does not convert to the type asked for.
\<close>

definition fails_at :: "json \<Rightarrow> string \<Rightarrow> (json \<Rightarrow> exception + 'a) \<Rightarrow> bool" where
  "fails_at doc key convert =
     (case member doc key of Inl e \<Rightarrow> True | Inr v \<Rightarrow> \<not> isNull v \<and> isl (convert v))"

definition conversion_fails :: "('b, 'k) env \<Rightarrow> json \<Rightarrow> bool" where
  "conversion_fails E doc =
     (fails_at doc ''TimeScale'' asDouble \<or>
      fails_at doc ''protobuf_data_path'' (asString (valueToString E)) \<or>
      (case member doc ''BaseFPS'' of
         Inl e \<Rightarrow> True
       | Inr fps \<Rightarrow> isObject fps \<and> (fails_at fps ''num'' asInt \<or> fails_at fps ''den'' asInt)))"

subsection \<open>Concrete inputs\<close>

text \<open>
  Three records: one well inside the frame, one with a negative \<open>x1\<close>, one whose second
  corner lies left of and above the first; and a record that shares its frame number
  with the negative one.
\<close>

definition frame3 :: pbFrame where
  "frame3 = \<lparr>frame_id = 3, frame_rotation = 0,
     bounding_box = \<lparr>box_x1 = 1/4, box_y1 = 1/4, box_x2 = 3/4, box_y2 = 3/4\<rparr>\<rparr>"

definition frame5_negative :: pbFrame where
  "frame5_negative = \<lparr>frame_id = 5, frame_rotation = 0,
     bounding_box = \<lparr>box_x1 = - (1/4), box_y1 = 1/4, box_x2 = 3/4, box_y2 = 3/4\<rparr>\<rparr>"

definition frame5_again :: pbFrame where
  "frame5_again = \<lparr>frame_id = 5, frame_rotation = 0,
     bounding_box = \<lparr>box_x1 = 1/2, box_y1 = 1/2, box_x2 = 3/4, box_y2 = 3/4\<rparr>\<rparr>"

definition frame7_reversed :: pbFrame where
  "frame7_reversed = \<lparr>frame_id = 7, frame_rotation = 0,
     bounding_box = \<lparr>box_x1 = 3/4, box_y1 = 3/4, box_x2 = 1/4, box_y2 = 1/2\<rparr>\<rparr>"

definition track_message :: TrackerMessage where
  "track_message = \<lparr>frames = [frame3, frame5_negative, frame7_reversed], last_updated = None\<rparr>"

definition twice5_message :: TrackerMessage where
  "twice5_message = \<lparr>frames = [frame5_negative, frame5_again], last_updated = None\<rparr>"

text \<open>
  A world with two track files and six configuration texts, a parent without
  properties and curves that are constants, loaded from a JSON number.
\<close>

definition doc_scale_and_path :: json where
  "doc_scale_and_path =
     JObject [(''TimeScale'', JInt 2), (''protobuf_data_path'', JString ''track.data'')]"

definition doc_rate_as_array :: json where
  "doc_rate_as_array = JObject [(''BaseFPS'', JArray [JInt 30, JInt 1])]"

definition doc_full :: json where
  "doc_full =
     JObject [(''BaseFPS'', JObject [(''num'', JInt 30), (''den'', JInt 1)]),
              (''TimeScale'', JReal (1/2)), (''delta_x'', JReal (1/4))]"

definition doc_missing_path :: json where
  "doc_missing_path = JObject [(''protobuf_data_path'', JString ''missing.data'')]"

definition text_scale_and_path :: string where
  \<open>text_scale_and_path = ''{"TimeScale": 2, "protobuf_data_path": "track.data"}''\<close>

definition text_rate_as_array :: string where
  \<open>text_rate_as_array = ''{"BaseFPS": [30, 1]}''\<close>

definition text_full :: string where
  \<open>text_full = ''{"BaseFPS": {"num": 30, "den": 1}, "TimeScale": 0.5, "delta_x": 0.25}''\<close>

definition text_missing_path :: string where
  \<open>text_missing_path = ''{"protobuf_data_path": "missing.data"}''\<close>

definition constant_curve :: "json \<Rightarrow> real action" where
  "constant_curve v k = (case asDouble v of Inl e \<Rightarrow> (k, Some e) | Inr d \<Rightarrow> (d, None))"

definition world :: "(unit, real) env" where
  "world = \<lparr>
     ParseFromIstream = (\<lambda>path.
       if path = ''track.data'' then Some track_message
       else if path = ''twice5.data'' then Some twice5_message
       else None),
     EffectBase_SetJsonValue = (\<lambda>v. ok),
     Keyframe_SetJsonValue = constant_curve,
     Keyframe_GetValue = (\<lambda>k frame_number. k),
     parse_json = (\<lambda>text.
       if text = ''{}'' then Some (JObject [])
       else if text = text_scale_and_path then Some doc_scale_and_path
       else if text = text_rate_as_array then Some doc_rate_as_array
       else if text = text_full then Some doc_full
       else if text = text_missing_path then Some doc_missing_path
       else if text = ''[30, 1]'' then Some (JArray [JInt 30, JInt 1])
       else None),
     valueToString = (\<lambda>v. ''0'')\<rparr>"

definition no_boxes :: KeyFrameBBox where
  "no_boxes = \<lparr>boxes = [], base_rate = \<lparr>num = 30, den = 1\<rparr>, time_scale = 1\<rparr>"

definition box9 :: BBox where
  "box9 = \<lparr>cx = 1/8, cy = 1/8, width = 1/8, height = 1/8\<rparr>"

definition fresh_tracker :: "(unit, real) Tracker" where
  "fresh_tracker = \<lparr>base = (), trackedData = no_boxes, BaseFPS = \<lparr>num = 30, den = 1\<rparr>,
     TimeScale = 1, protobuf_data_path = '''',
     delta_x = 0, delta_y = 0, scale_x = 0, scale_y = 0, rotation = 0\<rparr>"

definition used_tracker :: "(unit, real) Tracker" where
  "used_tracker = fresh_tracker\<lparr>trackedData := no_boxes\<lparr>boxes := [(9, box9)]\<rparr>,
     protobuf_data_path := ''old.data''\<rparr>"

text \<open>An effect with one sample at frame 3 and two curves that are not zero.\<close>

definition box3 :: BBox where
  "box3 = \<lparr>cx = 1/4, cy = 1/4, width = 1/2, height = 1/2\<rparr>"

definition tracker3 :: "(unit, real) Tracker" where
  "tracker3 = fresh_tracker\<lparr>trackedData := no_boxes\<lparr>boxes := [(3, box3)]\<rparr>,
     delta_x := 1/4, scale_y := 1/4\<rparr>"

text \<open>The effect after the time scale 2 and the track file were set in one update.\<close>

definition scaled_tracker :: "(unit, real) Tracker" where
  "scaled_tracker = fresh_tracker\<lparr>
     trackedData := \<lparr>boxes = [(3, box3), (7, \<lparr>cx = 3/4, cy = 3/4, width = - (1/2), height = - (1/4)\<rparr>)],
       base_rate = \<lparr>num = 30, den = 1\<rparr>, time_scale = 2\<rparr>,
     TimeScale := 2, protobuf_data_path := ''track.data''\<rparr>"

text \<open>
  An arithmetic without rounding.  On the values of the examples below (quarters, and
  images 100 by 200 pixels) the machine's arithmetic is exact as well; a product that an
  \<open>int\<close> does not hold is cast to the least \<open>int\<close>, as the conversion of x86 does.
\<close>

definition exact_arithmetic :: "real arithmetic" where
  "exact_arithmetic = \<lparr>
     float_of_int = real,
     double_of = (\<lambda>r. r),
     double_add = (+),
     double_mul = (*),
     int_of_double = (\<lambda>r.
       if - (2 ^ 31) \<le> int_cast r \<and> int_cast r \<le> 2 ^ 31 - 1 then word_of_int (int_cast r)
       else word_of_int (- (2 ^ 31)))\<rparr>"

definition picture :: Frame where
  "picture = \<lparr>imagecv = \<lparr>cols = 100, rows = 200, drawn = []\<rparr>\<rparr>"

section \<open>Properties\<close>

subsection \<open>The store and the loader\<close>

lemma map_of_insert_box: "map_of (insert_box k b xs) = (map_of xs)(k \<mapsto> b)"
  by (induction xs) (auto simp: fun_upd_twist)

lemma load_frame_cases: "load_frame r s = (if accepted r then add_record r s else s)"
  by (simp add: load_frame_def accepted_def add_record_def Let_def)

lemma fold_load_frame: "fold load_frame rs s = fold add_record (filter accepted rs) s"
  by (induction rs arbitrary: s) (simp_all add: load_frame_cases)

lemma boxes_add_record: "boxes (add_record r s) = insert_box (frame_id r) (sample_of r) (boxes s)"
  by (simp add: add_record_def AddBox_def sample_of_def Let_def)

lemma map_of_fold_add_record:
  "map_of (boxes (fold add_record rs s)) =
     map_of (rev (map (\<lambda>r. (frame_id r, sample_of r)) rs) @ boxes s)"
proof (induction rs arbitrary: s)
  case Nil
  then show ?case by simp
next
  case (Cons r rs)
  show ?case
    by (simp add: Cons.IH boxes_add_record map_of_insert_box map_add_def fun_eq_iff split: option.splits)
qed

lemma LoadTrackedData_Some:
  "ParseFromIstream E path = Some msg \<Longrightarrow>
   LoadTrackedData E path t =
     (True, t\<lparr>trackedData := fold add_record (filter accepted (frames msg)) (clear (trackedData t))\<rparr>)"
  by (simp add: LoadTrackedData_def fold_load_frame)

lemma map_of_loaded:
  "map_of (boxes (fold add_record rs (clear s))) = map_of (rev (map (\<lambda>r. (frame_id r, sample_of r)) rs))"
  by (simp add: map_of_fold_add_record clear_def)

lemma map_of_rev_keys:
  "(\<exists>y. map_of (rev (map (\<lambda>r. (f r, g r)) rs)) k = Some y) = (k \<in> f ` set rs)"
  by (induction rs) (auto simp: map_add_def split: option.splits)

lemma GetValue_loaded:
  "ParseFromIstream E path = Some msg \<Longrightarrow>
   GetValue (trackedData (snd (LoadTrackedData E path t))) f =
     (case map_of (rev (map (\<lambda>r. (frame_id r, sample_of r)) (filter accepted (frames msg)))) f of
        None \<Rightarrow> Inl NotFound | Some b \<Rightarrow> Inr b)"
  by (simp add: LoadTrackedData_Some GetValue_def map_of_loaded)

lemma Contains_loaded:
  "ParseFromIstream E path = Some msg \<Longrightarrow>
   Contains (trackedData (snd (LoadTrackedData E path t))) f =
     (f \<in> frame_id ` set (filter accepted (frames msg)))"
  by (simp add: LoadTrackedData_Some Contains_def map_of_loaded map_of_rev_keys del: set_filter)

text \<open>
  Claim C7.  A load whose file parses reports success and leaves in the store what one
  \<open>AddBox\<close> per accepted record, in file order, puts into the cleared store: a lookup
  finds the last accepted record of the file with that frame number, and a frame number
  is contained exactly when an accepted record of the file carries it.  Nothing of the
  samples held before the load is left.
\<close>

theorem load_clears_then_fills:
  assumes "ParseFromIstream E path = Some msg"
  shows "LoadTrackedData E path t =
           (True, t\<lparr>trackedData :=
              fold add_record (filter accepted (frames msg)) (clear (trackedData t))\<rparr>) \<and>
         (\<forall>f. GetValue (trackedData (snd (LoadTrackedData E path t))) f =
            (case map_of (rev (map (\<lambda>r. (frame_id r, sample_of r)) (filter accepted (frames msg)))) f of
               None \<Rightarrow> Inl NotFound | Some b \<Rightarrow> Inr b)) \<and>
         (\<forall>f. Contains (trackedData (snd (LoadTrackedData E path t))) f =
            (f \<in> frame_id ` set (filter accepted (frames msg))))"
proof -
  note a = LoadTrackedData_Some [OF assms, of t]
  have b: "\<forall>f. GetValue (trackedData (snd (LoadTrackedData E path t))) f =
            (case map_of (rev (map (\<lambda>r. (frame_id r, sample_of r)) (filter accepted (frames msg)))) f of
               None \<Rightarrow> Inl NotFound | Some b \<Rightarrow> Inr b)"
    using GetValue_loaded [OF assms] by blast
  have c: "\<forall>f. Contains (trackedData (snd (LoadTrackedData E path t))) f =
            (f \<in> frame_id ` set (filter accepted (frames msg)))"
    using Contains_loaded [OF assms] by blast
  show ?thesis using a b c by blast
qed

theorem load_clears_then_fills_witness:
  "ParseFromIstream world ''track.data'' = Some track_message \<and>
   LoadTrackedData world ''track.data'' used_tracker =
     (True, used_tracker\<lparr>trackedData := no_boxes\<lparr>boxes :=
        [(3, \<lparr>cx = 1/4, cy = 1/4, width = 1/2, height = 1/2\<rparr>),
         (7, \<lparr>cx = 3/4, cy = 3/4, width = - (1/2), height = - (1/4)\<rparr>)]\<rparr>\<rparr>) \<and>
   GetValue (trackedData (snd (LoadTrackedData world ''track.data'' used_tracker))) 9 = Inl NotFound \<and>
   \<not> Contains (trackedData (snd (LoadTrackedData world ''track.data'' used_tracker))) 9"
proof -
  have h: "ParseFromIstream world ''track.data'' = Some track_message"
    by (simp add: world_def)
  have acc: "filter accepted (frames track_message) = [frame3, frame7_reversed]"
    by (simp add: track_message_def accepted_def frame3_def frame5_negative_def frame7_reversed_def)
  note th = load_clears_then_fills [OF h, of used_tracker]
  from th have a: "LoadTrackedData world ''track.data'' used_tracker =
      (True, used_tracker\<lparr>trackedData :=
         fold add_record (filter accepted (frames track_message)) (clear (trackedData used_tracker))\<rparr>)"
    by blast
  from th have b: "GetValue (trackedData (snd (LoadTrackedData world ''track.data'' used_tracker))) 9 =
      (case map_of (rev (map (\<lambda>r. (frame_id r, sample_of r)) (filter accepted (frames track_message)))) 9 of
         None \<Rightarrow> Inl NotFound | Some b \<Rightarrow> Inr b)"
    by blast
  from th have c: "Contains (trackedData (snd (LoadTrackedData world ''track.data'' used_tracker))) 9 =
      (9 \<in> frame_id ` set (filter accepted (frames track_message)))"
    by blast
  have a': "LoadTrackedData world ''track.data'' used_tracker =
     (True, used_tracker\<lparr>trackedData := no_boxes\<lparr>boxes :=
        [(3, \<lparr>cx = 1/4, cy = 1/4, width = 1/2, height = 1/2\<rparr>),
         (7, \<lparr>cx = 3/4, cy = 3/4, width = - (1/2), height = - (1/4)\<rparr>)]\<rparr>\<rparr>)"
    unfolding a acc
    by (simp add: add_record_def AddBox_def clear_def used_tracker_def fresh_tracker_def
          no_boxes_def frame3_def frame7_reversed_def)
  have b': "GetValue (trackedData (snd (LoadTrackedData world ''track.data'' used_tracker))) 9 = Inl NotFound"
    unfolding b acc by (simp add: frame3_def frame7_reversed_def)
  have c': "\<not> Contains (trackedData (snd (LoadTrackedData world ''track.data'' used_tracker))) 9"
    unfolding c acc by (simp add: frame3_def frame7_reversed_def)
  show ?thesis using h a' b' c' by blast
qed

text \<open>
  A record with a negative corner does not make its frame number absent: in the file
  with two records for frame 5, the first with a negative \<open>x1\<close>, frame 5 is contained
  after the load.
\<close>

theorem negative_record_twice5_counterexample:
  "frame5_negative \<in> set (frames twice5_message) \<and>
   box_x1 (bounding_box frame5_negative) < 0 \<and>
   fst (LoadTrackedData world ''twice5.data'' fresh_tracker) \<and>
   Contains (trackedData (snd (LoadTrackedData world ''twice5.data'' fresh_tracker)))
     (frame_id frame5_negative)"
  by (simp add: world_def twice5_message_def frame5_negative_def frame5_again_def
        fresh_tracker_def no_boxes_def LoadTrackedData_def load_frame_def AddBox_def clear_def
        Contains_def Let_def)

lemma negative_not_accepted: "negative_corner r \<Longrightarrow> \<not> accepted r"
  by (auto simp: negative_corner_def accepted_def Let_def)

text \<open>
  Claim C6, amended.  A record with a negative corner coordinate is dropped and the load
  still reports success: the load leaves the store the file without that record would
  leave.  Its frame number is not contained afterwards when no accepted record of the
  file carries the same frame number.
\<close>

theorem negative_record_dropped:
  assumes "ParseFromIstream E path = Some msg"
    and "frames msg = pre @ r # post"
    and "negative_corner r"
  shows "LoadTrackedData E path t =
           (True, t\<lparr>trackedData := fold load_frame (pre @ post) (clear (trackedData t))\<rparr>) \<and>
         ((\<forall>r' \<in> set (pre @ post). accepted r' \<longrightarrow> frame_id r' \<noteq> frame_id r) \<longrightarrow>
            \<not> Contains (trackedData (snd (LoadTrackedData E path t))) (frame_id r))"
proof -
  have na: "\<not> accepted r" using assms(3) by (rule negative_not_accepted)
  have f: "filter accepted (frames msg) = filter accepted (pre @ post)"
    using na assms(2) by simp
  have 1: "LoadTrackedData E path t =
           (True, t\<lparr>trackedData := fold load_frame (pre @ post) (clear (trackedData t))\<rparr>)"
    using assms(1) by (simp add: LoadTrackedData_Some f fold_load_frame)
  have 2: "Contains (trackedData (snd (LoadTrackedData E path t))) (frame_id r) =
           (frame_id r \<in> frame_id ` set (filter accepted (pre @ post)))"
    using Contains_loaded [OF assms(1), of t] unfolding f by blast
  show ?thesis unfolding 2 using 1 by auto
qed

theorem negative_record_dropped_witness:
  "ParseFromIstream world ''track.data'' = Some track_message \<and>
   frames track_message = [frame3] @ frame5_negative # [frame7_reversed] \<and>
   negative_corner frame5_negative \<and>
   fst (LoadTrackedData world ''track.data'' fresh_tracker) \<and>
   \<not> Contains (trackedData (snd (LoadTrackedData world ''track.data'' fresh_tracker))) 5"
proof -
  have h1: "ParseFromIstream world ''track.data'' = Some track_message"
    by (simp add: world_def)
  have h2: "frames track_message = [frame3] @ frame5_negative # [frame7_reversed]"
    by (simp add: track_message_def)
  have h3: "negative_corner frame5_negative"
    by (simp add: negative_corner_def frame5_negative_def)
  have h4: "\<forall>r' \<in> set ([frame3] @ [frame7_reversed]). accepted r' \<longrightarrow> frame_id r' \<noteq> frame_id frame5_negative"
    by (simp add: frame3_def frame7_reversed_def frame5_negative_def)
  have id5: "frame_id frame5_negative = 5"
    by (simp add: frame5_negative_def)
  note th = negative_record_dropped [OF h1 h2 h3, of fresh_tracker]
  from th h4 have "\<not> Contains (trackedData (snd (LoadTrackedData world ''track.data'' fresh_tracker)))
      (frame_id frame5_negative)"
    by blast
  moreover from th have "fst (LoadTrackedData world ''track.data'' fresh_tracker)"
    by simp
  ultimately show ?thesis using h1 h2 h3 unfolding id5 by blast
qed



text \<open>
  Claim C10.  A record whose corners are all non-negative and reversed passes the test
  of line 148, which looks at the raw corners only: the loader calls \<open>AddBox\<close> for it
  with the width \<open>x2 - x1\<close> and the height \<open>y2 - y1\<close>, one of them negative.  Its frame
  number is contained after the load, and the sample found there is this one unless a
  later accepted record of the file carries the same frame number.
\<close>

theorem reversed_record_stored:
  assumes "ParseFromIstream E path = Some msg"
    and "frames msg = pre @ r # post"
    and "accepted r"
    and "reversed_corners r"
  shows "LoadTrackedData E path t =
           (True, t\<lparr>trackedData :=
              fold load_frame post
                (AddBox (frame_id r) (box_x1 (bounding_box r)) (box_y1 (bounding_box r))
                   (box_x2 (bounding_box r) - box_x1 (bounding_box r))
                   (box_y2 (bounding_box r) - box_y1 (bounding_box r))
                   (fold load_frame pre (clear (trackedData t))))\<rparr>) \<and>
         (box_x2 (bounding_box r) - box_x1 (bounding_box r) < 0 \<or>
          box_y2 (bounding_box r) - box_y1 (bounding_box r) < 0) \<and>
         Contains (trackedData (snd (LoadTrackedData E path t))) (frame_id r) \<and>
         ((\<forall>r' \<in> set post. accepted r' \<longrightarrow> frame_id r' \<noteq> frame_id r) \<longrightarrow>
            GetValue (trackedData (snd (LoadTrackedData E path t))) (frame_id r) =
              Inr \<lparr>cx = box_x1 (bounding_box r), cy = box_y1 (bounding_box r),
                   width = box_x2 (bounding_box r) - box_x1 (bounding_box r),
                   height = box_y2 (bounding_box r) - box_y1 (bounding_box r)\<rparr>)"
proof -
  have 1: "LoadTrackedData E path t =
           (True, t\<lparr>trackedData :=
              fold load_frame post
                (AddBox (frame_id r) (box_x1 (bounding_box r)) (box_y1 (bounding_box r))
                   (box_x2 (bounding_box r) - box_x1 (bounding_box r))
                   (box_y2 (bounding_box r) - box_y1 (bounding_box r))
                   (fold load_frame pre (clear (trackedData t))))\<rparr>)"
    using assms(1,2,3)
    by (simp add: LoadTrackedData_def load_frame_cases add_record_def Let_def)
  have 2: "box_x2 (bounding_box r) - box_x1 (bounding_box r) < 0 \<or>
          box_y2 (bounding_box r) - box_y1 (bounding_box r) < 0"
    using assms(4) by (auto simp: reversed_corners_def Let_def)
  have 3: "Contains (trackedData (snd (LoadTrackedData E path t))) (frame_id r)"
  proof -
    have "frame_id r \<in> frame_id ` set (filter accepted (frames msg))"
      using assms(2,3) by simp
    then show ?thesis by (simp only: Contains_loaded [OF assms(1)])
  qed
  have 4: "GetValue (trackedData (snd (LoadTrackedData E path t))) (frame_id r) = Inr (sample_of r)"
    if last: "\<forall>r' \<in> set post. accepted r' \<longrightarrow> frame_id r' \<noteq> frame_id r"
  proof -
    have none: "map_of (rev (map (\<lambda>r. (frame_id r, sample_of r)) (filter accepted post))) (frame_id r) = None"
      using last by (auto simp: map_of_eq_None_iff image_iff)
    have "map_of (rev (map (\<lambda>r. (frame_id r, sample_of r)) (filter accepted (frames msg)))) (frame_id r)
          = Some (sample_of r)"
      using assms(2,3) none by (simp add: map_add_def)
    then show ?thesis by (simp only: GetValue_loaded [OF assms(1)] option.case)
  qed
  show ?thesis using 1 2 3 4 by (simp add: sample_of_def Let_def)
qed

theorem reversed_record_stored_witness:
  "ParseFromIstream world ''track.data'' = Some track_message \<and>
   frames track_message = [frame3, frame5_negative] @ frame7_reversed # [] \<and>
   accepted frame7_reversed \<and> reversed_corners frame7_reversed \<and>
   Contains (trackedData (snd (LoadTrackedData world ''track.data'' fresh_tracker))) 7 \<and>
   GetValue (trackedData (snd (LoadTrackedData world ''track.data'' fresh_tracker))) 7 =
     Inr \<lparr>cx = 3/4, cy = 3/4, width = - (1/2), height = - (1/4)\<rparr>"
proof -
  have h1: "ParseFromIstream world ''track.data'' = Some track_message"
    by (simp add: world_def)
  have h2: "frames track_message = [frame3, frame5_negative] @ frame7_reversed # []"
    by (simp add: track_message_def)
  have h3: "accepted frame7_reversed"
    by (simp add: accepted_def frame7_reversed_def)
  have h4: "reversed_corners frame7_reversed"
    by (simp add: reversed_corners_def frame7_reversed_def)
  have h5: "\<forall>r' \<in> set []. accepted r' \<longrightarrow> frame_id r' \<noteq> frame_id frame7_reversed"
    by simp
  note th = reversed_record_stored [OF h1 h2 h3 h4, of fresh_tracker]
  from th have c: "Contains (trackedData (snd (LoadTrackedData world ''track.data'' fresh_tracker)))
      (frame_id frame7_reversed)"
    by blast
  from th h5 have g: "GetValue (trackedData (snd (LoadTrackedData world ''track.data'' fresh_tracker)))
      (frame_id frame7_reversed) =
        Inr \<lparr>cx = box_x1 (bounding_box frame7_reversed), cy = box_y1 (bounding_box frame7_reversed),
             width = box_x2 (bounding_box frame7_reversed) - box_x1 (bounding_box frame7_reversed),
             height = box_y2 (bounding_box frame7_reversed) - box_y1 (bounding_box frame7_reversed)\<rparr>"
    by blast
  from c have c': "Contains (trackedData (snd (LoadTrackedData world ''track.data'' fresh_tracker))) 7"
    by (simp add: frame7_reversed_def)
  from g have g': "GetValue (trackedData (snd (LoadTrackedData world ''track.data'' fresh_tracker))) 7 =
     Inr \<lparr>cx = 3/4, cy = 3/4, width = - (1/2), height = - (1/4)\<rparr>"
    by (simp add: frame7_reversed_def)
  show ?thesis using h1 h2 h3 h4 c' g' by blast
qed

subsection \<open>Lookup of a sample\<close>

text \<open>
  Claim C8.  \<open>GetTrackedData\<close> hands the frame number to the store's lookup and returns
  what it returns: for a frame number the store does not contain, the not-found error
  and no sample; for one it contains, the sample stored there.
\<close>

theorem get_absent_raises:
  "(\<not> Contains (trackedData t) frameId \<longrightarrow> GetTrackedData t frameId = Inl NotFound) \<and>
   (Contains (trackedData t) frameId \<longrightarrow>
      (\<exists>b. GetTrackedData t frameId = Inr b \<and> (frameId, b) \<in> set (boxes (trackedData t))))"
  by (auto simp: GetTrackedData_def GetValue_def Contains_def dest: map_of_SomeD)

theorem get_absent_raises_witness:
  "\<not> Contains (trackedData used_tracker) 4 \<and> GetTrackedData used_tracker 4 = Inl NotFound \<and>
   Contains (trackedData used_tracker) 9 \<and> GetTrackedData used_tracker 9 = Inr box9"
proof -
  have a: "\<not> Contains (trackedData used_tracker) 4"
    by (simp add: Contains_def used_tracker_def fresh_tracker_def no_boxes_def)
  have b: "Contains (trackedData used_tracker) 9"
    by (simp add: Contains_def used_tracker_def fresh_tracker_def no_boxes_def)
  from a get_absent_raises [of used_tracker 4]
  have c: "GetTrackedData used_tracker 4 = Inl NotFound" by blast
  from b get_absent_raises [of used_tracker 9]
  obtain b' where "GetTrackedData used_tracker 9 = Inr b'"
    and "(9, b') \<in> set (boxes (trackedData used_tracker))" by blast
  then have d: "GetTrackedData used_tracker 9 = Inr box9"
    by (simp add: used_tracker_def fresh_tracker_def no_boxes_def)
  show ?thesis using a b c d by blast
qed

subsection \<open>The frame returned by GetFrame\<close>

text \<open>
  Claim C4.  For a frame number the store does not contain, \<open>GetFrame\<close> returns the
  frame as it came: nothing is drawn on its image, whatever the curves hold.
\<close>

theorem no_sample_no_region:
  assumes "\<not> Contains (trackedData t) frame_number"
  shows "GetFrame A E t frame_number frame = (frame, None)"
  using assms by (simp add: GetFrame_def Let_def)

theorem no_sample_no_region_witness:
  "\<not> Contains (trackedData tracker3) 4 \<and>
   GetFrame exact_arithmetic world tracker3 4 picture = (picture, None)"
proof -
  have a: "\<not> Contains (trackedData tracker3) 4"
    by (simp add: Contains_def tracker3_def fresh_tracker_def no_boxes_def)
  from no_sample_no_region [OF a] show ?thesis using a by blast
qed

text \<open>
  The rectangle drawn is in pixels: for the sample \<open>(1/4, 1/4, 1/2, 1/2)\<close> at frame 3,
  the offsets \<open>delta_x = 1/4\<close> and \<open>scale_y = 1/4\<close> and an image of 100 by 200 pixels it is
  \<open>(50, 50, 50, 150)\<close>, where the sums of sample and offsets are
  \<open>(1/2, 1/4, 1/2, 3/4)\<close>.  Every sum and product of this example is a double, so that
  no arithmetic rounds here.
\<close>

lemma pixel_exact:
  "- (2 ^ 31) \<le> int_cast ((c + d) * w) \<Longrightarrow> int_cast ((c + d) * w) \<le> 2 ^ 31 - 1 \<Longrightarrow>
   pixel exact_arithmetic c d w = word_of_int (int_cast ((c + d) * w))"
  by (simp add: pixel_def exact_arithmetic_def)

theorem fractional_rectangle_counterexample:
  "GetValue (trackedData tracker3) 3 = Inr box3 \<and>
   GetFrame exact_arithmetic world tracker3 3 picture =
     (picture\<lparr>imagecv := cv_rectangle (Rect 50 50 50 150) (255, 0, 0) 2 1 (imagecv picture)\<rparr>, None) \<and>
   real_of_int (sint (rect_x (Rect 50 50 50 150))) \<noteq>
     cx box3 + Keyframe_GetValue world (delta_x tracker3) 3 \<and>
   cx box3 + Keyframe_GetValue world (delta_x tracker3) 3 = 1/2 \<and>
   cy box3 + Keyframe_GetValue world (delta_y tracker3) 3 = 1/4 \<and>
   width box3 + Keyframe_GetValue world (scale_x tracker3) 3 = 1/2 \<and>
   height box3 + Keyframe_GetValue world (scale_y tracker3) 3 = 3/4"
proof -
  have g: "GetValue (trackedData tracker3) 3 = Inr box3"
    by (simp add: GetValue_def tracker3_def fresh_tracker_def no_boxes_def)
  have p: "pixel exact_arithmetic (1/4) (1/4) 100 = 50" "pixel exact_arithmetic (1/4) 0 200 = 50"
    "pixel exact_arithmetic (1/2) 0 100 = 50" "pixel exact_arithmetic (1/2) (1/4) 200 = 150"
    by (simp_all add: pixel_exact int_cast_def)
  have f: "float_of_int exact_arithmetic 100 = 100" "float_of_int exact_arithmetic 200 = 200"
    by (simp_all add: exact_arithmetic_def)
  have d: "GetFrame exact_arithmetic world tracker3 3 picture =
     (picture\<lparr>imagecv := cv_rectangle (Rect 50 50 50 150) (255, 0, 0) 2 1 (imagecv picture)\<rparr>, None)"
    by (simp add: GetFrame_def GetValue_def Contains_def tracker3_def fresh_tracker_def
          no_boxes_def box3_def world_def picture_def Mat_empty_def pixel_box_def p f)
  have s: "real_of_int (sint (rect_x (Rect 50 50 50 150))) \<noteq>
     cx box3 + Keyframe_GetValue world (delta_x tracker3) 3"
    by (simp add: box3_def world_def tracker3_def fresh_tracker_def)
  have v: "cx box3 + Keyframe_GetValue world (delta_x tracker3) 3 = 1/2"
    "cy box3 + Keyframe_GetValue world (delta_y tracker3) 3 = 1/4"
    "width box3 + Keyframe_GetValue world (scale_x tracker3) 3 = 1/2"
    "height box3 + Keyframe_GetValue world (scale_y tracker3) 3 = 3/4"
    by (simp_all add: box3_def world_def tracker3_def fresh_tracker_def)
  show ?thesis using g d s v by blast
qed

text \<open>
  Claim C5, amended.  For a frame number with a stored sample \<open>s\<close> and an image that is
  not empty, \<open>GetFrame\<close> itself adds each curve value to its coordinate of the sample,
  multiplies the sum by the image's width or height in pixels, both in the machine's
  double arithmetic, casts the product to \<open>int\<close>, and draws the rectangle of these four
  pixel values; on an empty image it draws nothing.  This holds for every arithmetic,
  so for the machine's, whatever it rounds and whatever its cast gives out of range.
\<close>

theorem pixel_rectangle:
  assumes "GetValue (trackedData t) frame_number = Inr s"
  shows "GetFrame A E t frame_number frame =
     (if Mat_empty (imagecv frame) then (frame, None)
      else (frame\<lparr>imagecv :=
              cv_rectangle
                (Rect
                  (int_of_double A (double_mul A
                     (double_add A (double_of A (cx s))
                        (double_of A (Keyframe_GetValue E (delta_x t) frame_number)))
                     (double_of A (float_of_int A (cols (imagecv frame))))))
                  (int_of_double A (double_mul A
                     (double_add A (double_of A (cy s))
                        (double_of A (Keyframe_GetValue E (delta_y t) frame_number)))
                     (double_of A (float_of_int A (rows (imagecv frame))))))
                  (int_of_double A (double_mul A
                     (double_add A (double_of A (width s))
                        (double_of A (Keyframe_GetValue E (scale_x t) frame_number)))
                     (double_of A (float_of_int A (cols (imagecv frame))))))
                  (int_of_double A (double_mul A
                     (double_add A (double_of A (height s))
                        (double_of A (Keyframe_GetValue E (scale_y t) frame_number)))
                     (double_of A (float_of_int A (rows (imagecv frame)))))))
                (255, 0, 0) 2 1 (imagecv frame)\<rparr>, None))"
proof -
  have "Contains (trackedData t) frame_number"
    using assms by (simp add: GetValue_def Contains_def split: option.splits)
  then show ?thesis
    using assms by (simp add: GetFrame_def Let_def pixel_box_def pixel_def)
qed

theorem pixel_rectangle_witness:
  "GetValue (trackedData tracker3) 3 = Inr box3 \<and>
   GetFrame exact_arithmetic world tracker3 3 picture =
     (\<lparr>imagecv = \<lparr>cols = 100, rows = 200,
         drawn = [Rectangle (Rect 50 50 50 150) (255, 0, 0) 2 1]\<rparr>\<rparr>, None)"
proof -
  have h: "GetValue (trackedData tracker3) 3 = Inr box3"
    by (simp add: GetValue_def tracker3_def fresh_tracker_def no_boxes_def)
  have p: "pixel exact_arithmetic (1/4) (1/4) 100 = 50" "pixel exact_arithmetic (1/4) 0 200 = 50"
    "pixel exact_arithmetic (1/2) 0 100 = 50" "pixel exact_arithmetic (1/2) (1/4) 200 = 150"
    by (simp_all add: pixel_exact int_cast_def)
  have f: "float_of_int exact_arithmetic 100 = 100" "float_of_int exact_arithmetic 200 = 200"
    by (simp_all add: exact_arithmetic_def)
  have e: "Mat_empty (imagecv picture) = False" "cols (imagecv picture) = 100"
    "rows (imagecv picture) = 200"
    by (simp_all add: picture_def Mat_empty_def)
  have v: "cx box3 = 1/4" "cy box3 = 1/4" "width box3 = 1/2" "height box3 = 1/2"
    "Keyframe_GetValue world (delta_x tracker3) 3 = 1/4"
    "Keyframe_GetValue world (delta_y tracker3) 3 = 0"
    "Keyframe_GetValue world (scale_x tracker3) 3 = 0"
    "Keyframe_GetValue world (scale_y tracker3) 3 = 1/4"
    by (simp_all add: box3_def world_def tracker3_def fresh_tracker_def)
  have "GetFrame exact_arithmetic world tracker3 3 picture =
     (picture\<lparr>imagecv := cv_rectangle (Rect 50 50 50 150) (255, 0, 0) 2 1 (imagecv picture)\<rparr>, None)"
    using pixel_rectangle [OF h, of exact_arithmetic world picture]
    unfolding e v f pixel_def [symmetric] p by simp
  then show ?thesis using h by (simp add: picture_def cv_rectangle_def)
qed

subsection \<open>Actions\<close>

lemma run_ok_iff:
  "(run (a # as) s = (s'', None)) = (\<exists>s'. a s = (s', None) \<and> run as s' = (s'', None))"
  by (cases "a s") (auto split: option.splits)

lemma keepsI: "(\<And>s. part (fst (a s)) = part s) \<Longrightarrow> keeps part a"
  by (simp add: keeps_def)

lemma keepsD: "keeps part a \<Longrightarrow> part (fst (a s)) = part s"
  by (simp add: keeps_def)

lemma keeps_ok: "keeps part ok"
  by (simp add: keeps_def ok_def)

lemma keeps_assign: "(\<And>s. part (f s) = part s) \<Longrightarrow> keeps part (assign f)"
  by (simp add: keeps_def assign_def)

lemma keeps_eval_then: "(\<And>v. keeps part (f v)) \<Longrightarrow> keeps part (eval_then r f)"
  by (cases r) (simp_all add: keeps_def eval_then_def)

lemma keeps_if_member: "(\<And>v. keeps part (body v)) \<Longrightarrow> keeps part (if_member j key body)"
  unfolding if_member_def by (rule keeps_eval_then) (simp add: keeps_ok)

lemma keeps_run: "(\<And>a. a \<in> set as \<Longrightarrow> keeps part a) \<Longrightarrow> keeps part (run as)"
proof (induction as)
  case Nil
  show ?case by (simp add: keeps_def)
next
  case (Cons a as)
  have a: "keeps part a" using Cons.prems by simp
  have r: "keeps part (run as)" using Cons by simp
  show ?case
  proof (rule keepsI)
    fix s
    show "part (fst (run (a # as) s)) = part s"
    proof (cases "a s")
      case (Pair s' e)
      then show ?thesis
        using keepsD [OF a, of s] keepsD [OF r, of s'] by (cases e) simp_all
    qed
  qed
qed

lemma never_throwsD: "never_throws a \<Longrightarrow> snd (a s) = None"
  by (simp add: never_throws_def)

lemma never_throws_run: "(\<And>a. a \<in> set as \<Longrightarrow> never_throws a) \<Longrightarrow> never_throws (run as)"
proof (induction as)
  case Nil
  show ?case by (simp add: never_throws_def)
next
  case (Cons a as)
  have a: "never_throws a" using Cons.prems by simp
  have r: "never_throws (run as)" using Cons by simp
  show ?case
    unfolding never_throws_def
  proof
    fix s
    show "snd (run (a # as) s) = None"
      using never_throwsD [OF a, of s] never_throwsD [OF r, of "fst (a s)"]
      by (cases "a s") (auto split: option.splits)
  qed
qed

subsection \<open>What each block of SetJsonValue keeps\<close>

lemma set_parent_keeps:
  "keeps trackedData (set_parent E j)" "keeps BaseFPS (set_parent E j)"
  "keeps TimeScale (set_parent E j)" "keeps protobuf_data_path (set_parent E j)"
  "keeps delta_x (set_parent E j)" "keeps delta_y (set_parent E j)"
  "keeps scale_x (set_parent E j)" "keeps scale_y (set_parent E j)"
  "keeps rotation (set_parent E j)"
  by (simp_all add: keeps_def set_parent_def split: prod.splits)

lemma set_BaseFPS_keeps:
  "keeps base (set_BaseFPS j)" "keeps trackedData (set_BaseFPS j)"
  "keeps TimeScale (set_BaseFPS j)" "keeps protobuf_data_path (set_BaseFPS j)"
  "keeps delta_x (set_BaseFPS j)" "keeps delta_y (set_BaseFPS j)"
  "keeps scale_x (set_BaseFPS j)" "keeps scale_y (set_BaseFPS j)"
  "keeps rotation (set_BaseFPS j)"
  unfolding set_BaseFPS_def
  by (auto intro!: keeps_eval_then keeps_run keeps_if_member keeps_assign keeps_ok)

lemma set_TimeScale_keeps:
  "keeps base (set_TimeScale j)" "keeps trackedData (set_TimeScale j)"
  "keeps BaseFPS (set_TimeScale j)" "keeps protobuf_data_path (set_TimeScale j)"
  "keeps delta_x (set_TimeScale j)" "keeps delta_y (set_TimeScale j)"
  "keeps scale_x (set_TimeScale j)" "keeps scale_y (set_TimeScale j)"
  "keeps rotation (set_TimeScale j)"
  unfolding set_TimeScale_def
  by (auto intro!: keeps_eval_then keeps_if_member keeps_assign)

lemma scale_trackedData_keeps:
  "keeps base scale_trackedData"
  "keeps BaseFPS scale_trackedData" "keeps TimeScale scale_trackedData"
  "keeps protobuf_data_path scale_trackedData"
  "keeps delta_x scale_trackedData" "keeps delta_y scale_trackedData"
  "keeps scale_x scale_trackedData" "keeps scale_y scale_trackedData"
  "keeps rotation scale_trackedData"
  unfolding scale_trackedData_def
  by (auto intro!: keeps_assign)

lemma load_from_path_None:
  "ParseFromIstream E p = None \<Longrightarrow>
   load_from_path E p t = (t\<lparr>protobuf_data_path := ''''\<rparr>, None)"
  by (simp add: load_from_path_def LoadTrackedData_def)

lemma load_from_path_Some:
  "ParseFromIstream E p = Some msg \<Longrightarrow>
   load_from_path E p t =
     (t\<lparr>protobuf_data_path := p,
        trackedData := fold add_record (filter accepted (frames msg)) (clear (trackedData t))\<rparr>, None)"
  by (simp add: load_from_path_def LoadTrackedData_def fold_load_frame)

lemma load_from_path_never_throws: "never_throws (load_from_path E p)"
  by (cases "ParseFromIstream E p")
     (simp_all add: never_throws_def load_from_path_None load_from_path_Some)

lemma load_from_path_keeps:
  "keeps base (load_from_path E p)"
  "keeps BaseFPS (load_from_path E p)" "keeps TimeScale (load_from_path E p)"
  "keeps delta_x (load_from_path E p)" "keeps delta_y (load_from_path E p)"
  "keeps scale_x (load_from_path E p)" "keeps scale_y (load_from_path E p)"
  "keeps rotation (load_from_path E p)"
  by (cases "ParseFromIstream E p";
      simp add: keeps_def load_from_path_None load_from_path_Some)+

lemma set_protobuf_data_path_keeps:
  "keeps base (set_protobuf_data_path E j)"
  "keeps BaseFPS (set_protobuf_data_path E j)" "keeps TimeScale (set_protobuf_data_path E j)"
  "keeps delta_x (set_protobuf_data_path E j)" "keeps delta_y (set_protobuf_data_path E j)"
  "keeps scale_x (set_protobuf_data_path E j)" "keeps scale_y (set_protobuf_data_path E j)"
  "keeps rotation (set_protobuf_data_path E j)"
  unfolding set_protobuf_data_path_def
  by (auto intro!: keeps_eval_then keeps_if_member load_from_path_keeps)

lemma set_curve_keeps:
  "(\<And>k t. part (put k t) = part t) \<Longrightarrow> keeps part (set_curve E j key get put)"
  unfolding set_curve_def
  by (rule keeps_if_member) (simp add: keeps_def split: prod.splits)

lemma if_member_absent: "member j key = Inr JNull \<Longrightarrow> if_member j key body = ok"
  by (rule ext) (simp add: if_member_def eval_then_def isNull_def)

lemma if_member_present:
  "member j key = Inr v \<Longrightarrow> v \<noteq> JNull \<Longrightarrow> if_member j key body = body v"
  by (rule ext) (simp add: if_member_def eval_then_def isNull_def)

lemma set_BaseFPS_absent: "member j ''BaseFPS'' = Inr JNull \<Longrightarrow> set_BaseFPS j = ok"
  by (rule ext) (simp add: set_BaseFPS_def eval_then_def isNull_def)

lemma set_TimeScale_present:
  "member j ''TimeScale'' = Inr v \<Longrightarrow> v \<noteq> JNull \<Longrightarrow> asDouble v = Inr d \<Longrightarrow>
   set_TimeScale j t = (t\<lparr>TimeScale := d\<rparr>, None)"
  by (simp add: set_TimeScale_def if_member_present eval_then_def assign_def)

lemma set_protobuf_data_path_present:
  "member j ''protobuf_data_path'' = Inr v \<Longrightarrow> v \<noteq> JNull \<Longrightarrow>
   asString (valueToString E) v = Inr p \<Longrightarrow>
   set_protobuf_data_path E j t = load_from_path E p t"
  by (simp add: set_protobuf_data_path_def if_member_present eval_then_def)

lemma keeps_BaseFPS_if_absent:
  "member j ''BaseFPS'' = Inr JNull \<Longrightarrow> keeps BaseFPS (SetJsonValue E j)"
  unfolding SetJsonValue_def
  by (rule keeps_run)
     (auto simp: set_parent_keeps set_BaseFPS_absent set_TimeScale_keeps scale_trackedData_keeps
        set_protobuf_data_path_keeps keeps_ok intro!: set_curve_keeps)

lemma keeps_TimeScale_if_absent:
  "member j ''TimeScale'' = Inr JNull \<Longrightarrow> keeps TimeScale (SetJsonValue E j)"
  unfolding SetJsonValue_def
  by (rule keeps_run)
     (auto simp: set_parent_keeps set_BaseFPS_keeps set_TimeScale_def if_member_absent
        scale_trackedData_keeps set_protobuf_data_path_keeps keeps_ok intro!: set_curve_keeps)

lemma keeps_path_if_absent:
  "member j ''protobuf_data_path'' = Inr JNull \<Longrightarrow> keeps protobuf_data_path (SetJsonValue E j)"
  unfolding SetJsonValue_def
  by (rule keeps_run)
     (auto simp: set_parent_keeps set_BaseFPS_keeps set_TimeScale_keeps
        scale_trackedData_keeps set_protobuf_data_path_def if_member_absent keeps_ok
        intro!: set_curve_keeps)

lemma set_curve_absent: "member j key = Inr JNull \<Longrightarrow> set_curve E j key get put = ok"
  by (simp add: set_curve_def if_member_absent)

lemma keeps_delta_x_if_absent:
  "member j ''delta_x'' = Inr JNull \<Longrightarrow> keeps delta_x (SetJsonValue E j)"
  unfolding SetJsonValue_def
  by (rule keeps_run)
     (auto simp: set_parent_keeps set_BaseFPS_keeps set_TimeScale_keeps
        scale_trackedData_keeps set_protobuf_data_path_keeps set_curve_absent keeps_ok
        intro!: set_curve_keeps)

lemma keeps_delta_y_if_absent:
  "member j ''delta_y'' = Inr JNull \<Longrightarrow> keeps delta_y (SetJsonValue E j)"
  unfolding SetJsonValue_def
  by (rule keeps_run)
     (auto simp: set_parent_keeps set_BaseFPS_keeps set_TimeScale_keeps
        scale_trackedData_keeps set_protobuf_data_path_keeps set_curve_absent keeps_ok
        intro!: set_curve_keeps)

lemma keeps_scale_x_if_absent:
  "member j ''scale_x'' = Inr JNull \<Longrightarrow> keeps scale_x (SetJsonValue E j)"
  unfolding SetJsonValue_def
  by (rule keeps_run)
     (auto simp: set_parent_keeps set_BaseFPS_keeps set_TimeScale_keeps
        scale_trackedData_keeps set_protobuf_data_path_keeps set_curve_absent keeps_ok
        intro!: set_curve_keeps)

lemma keeps_scale_y_if_absent:
  "member j ''scale_y'' = Inr JNull \<Longrightarrow> keeps scale_y (SetJsonValue E j)"
  unfolding SetJsonValue_def
  by (rule keeps_run)
     (auto simp: set_parent_keeps set_BaseFPS_keeps set_TimeScale_keeps
        scale_trackedData_keeps set_protobuf_data_path_keeps set_curve_absent keeps_ok
        intro!: set_curve_keeps)

lemma keeps_rotation_if_absent:
  "member j ''rotation'' = Inr JNull \<Longrightarrow> keeps rotation (SetJsonValue E j)"
  unfolding SetJsonValue_def
  by (rule keeps_run)
     (auto simp: set_parent_keeps set_BaseFPS_keeps set_TimeScale_keeps
        scale_trackedData_keeps set_protobuf_data_path_keeps set_curve_absent keeps_ok
        intro!: set_curve_keeps)

lemma SetJsonValue_no_keys:
  assumes "EffectBase_SetJsonValue E j (base t) = (b, None)"
    and "member j ''BaseFPS'' = Inr JNull" and "member j ''TimeScale'' = Inr JNull"
    and "member j ''protobuf_data_path'' = Inr JNull"
    and "member j ''delta_x'' = Inr JNull" and "member j ''delta_y'' = Inr JNull"
    and "member j ''scale_x'' = Inr JNull" and "member j ''scale_y'' = Inr JNull"
    and "member j ''rotation'' = Inr JNull"
  shows "SetJsonValue E j t =
     (t\<lparr>base := b,
        trackedData := ScalePoints (TimeScale t) (SetBaseFPS (BaseFPS t) (trackedData t))\<rparr>, None)"
  using assms
  by (simp add: SetJsonValue_def set_parent_def set_BaseFPS_absent set_TimeScale_def
        set_protobuf_data_path_def set_curve_absent if_member_absent ok_def
        scale_trackedData_def assign_def)

subsection \<open>An update that returns normally\<close>

lemma set_curve_result:
  assumes "set_curve E j key get put t = (t', e)" and "\<And>k t. part (put k t) = part t"
  shows "part t' = part t"
  using keepsD [OF set_curve_keeps [of part put E j key get], of t] assms by simp

lemma SetJsonValue_ok_steps:
  assumes "SetJsonValue E j t = (t', None)"
  shows "\<exists>t2 t3 t5.
           set_TimeScale j t2 = (t3, None) \<and>
           set_protobuf_data_path E j
             (t3\<lparr>trackedData := ScalePoints (TimeScale t3) (SetBaseFPS (BaseFPS t3) (trackedData t))\<rparr>)
             = (t5, None) \<and>
           TimeScale t' = TimeScale t3 \<and> BaseFPS t' = BaseFPS t3 \<and>
           trackedData t' = trackedData t5 \<and> protobuf_data_path t' = protobuf_data_path t5"
proof -
  from assms obtain t1 t2 t3 t4 t5 t6 t7 t8 t9 where
    s1: "set_parent E j t = (t1, None)" and
    s2: "set_BaseFPS j t1 = (t2, None)" and
    s3: "set_TimeScale j t2 = (t3, None)" and
    s4: "scale_trackedData t3 = (t4, None)" and
    s5: "set_protobuf_data_path E j t4 = (t5, None)" and
    s6: "set_curve E j ''delta_x'' delta_x (\<lambda>k t. t\<lparr>delta_x := k\<rparr>) t5 = (t6, None)" and
    s7: "set_curve E j ''delta_y'' delta_y (\<lambda>k t. t\<lparr>delta_y := k\<rparr>) t6 = (t7, None)" and
    s8: "set_curve E j ''scale_x'' scale_x (\<lambda>k t. t\<lparr>scale_x := k\<rparr>) t7 = (t8, None)" and
    s9: "set_curve E j ''scale_y'' scale_y (\<lambda>k t. t\<lparr>scale_y := k\<rparr>) t8 = (t9, None)" and
    s10: "set_curve E j ''rotation'' rotation (\<lambda>k t. t\<lparr>rotation := k\<rparr>) t9 = (t', None)"
    unfolding SetJsonValue_def run_ok_iff by auto
  have d1: "trackedData t1 = trackedData t"
    using keepsD [OF set_parent_keeps(1), of E j t] s1 by simp
  have d2: "trackedData t2 = trackedData t1"
    using keepsD [OF set_BaseFPS_keeps(2), of j t1] s2 by simp
  have d3: "trackedData t3 = trackedData t2"
    using keepsD [OF set_TimeScale_keeps(2), of j t2] s3 by simp
  have t4: "t4 = t3\<lparr>trackedData := ScalePoints (TimeScale t3) (SetBaseFPS (BaseFPS t3) (trackedData t))\<rparr>"
    using s4 d1 d2 d3 by (simp add: scale_trackedData_def assign_def)
  have c: "keeps part (set_curve E j key get put)"
    if "\<And>k t. part (put k t) = part t" for part :: "('a, 'b) Tracker \<Rightarrow> 'c" and key get put
    using that by (rule set_curve_keeps)
  have k6: "trackedData t6 = trackedData t5" "protobuf_data_path t6 = protobuf_data_path t5"
    "TimeScale t6 = TimeScale t5" "BaseFPS t6 = BaseFPS t5"
    by (rule set_curve_result [OF s6], simp)+
  have k7: "trackedData t7 = trackedData t6" "protobuf_data_path t7 = protobuf_data_path t6"
    "TimeScale t7 = TimeScale t6" "BaseFPS t7 = BaseFPS t6"
    by (rule set_curve_result [OF s7], simp)+
  have k8: "trackedData t8 = trackedData t7" "protobuf_data_path t8 = protobuf_data_path t7"
    "TimeScale t8 = TimeScale t7" "BaseFPS t8 = BaseFPS t7"
    by (rule set_curve_result [OF s8], simp)+
  have k9: "trackedData t9 = trackedData t8" "protobuf_data_path t9 = protobuf_data_path t8"
    "TimeScale t9 = TimeScale t8" "BaseFPS t9 = BaseFPS t8"
    by (rule set_curve_result [OF s9], simp)+
  have k10: "trackedData t' = trackedData t9" "protobuf_data_path t' = protobuf_data_path t9"
    "TimeScale t' = TimeScale t9" "BaseFPS t' = BaseFPS t9"
    by (rule set_curve_result [OF s10], simp)+
  have k5: "TimeScale t5 = TimeScale t4" "BaseFPS t5 = BaseFPS t4"
    using keepsD [OF set_protobuf_data_path_keeps(3), of E j t4]
      keepsD [OF set_protobuf_data_path_keeps(2), of E j t4] s5 by simp_all
  have k4: "TimeScale t4 = TimeScale t3" "BaseFPS t4 = BaseFPS t3"
    by (simp_all add: t4)
  show ?thesis
    using s3 s5 k4 k5 k6 k7 k8 k9 k10 unfolding t4 by auto
qed

subsection \<open>The order of the store\<close>

lemma insert_box_after:
  "\<forall>k' \<in> set (map fst xs). k' < k \<Longrightarrow> insert_box k b xs = xs @ [(k, b)]"
  by (induction xs) auto

lemma keys_insert_box: "set (map fst (insert_box k b xs)) = insert k (set (map fst xs))"
  using arg_cong [OF map_of_insert_box [of k b xs], of dom] by (simp add: dom_map_of_conv_image_fst)

lemma sorted_insert_box:
  "sorted_wrt (<) (map fst xs) \<Longrightarrow> sorted_wrt (<) (map fst (insert_box k b xs))"
proof (induction xs)
  case Nil
  show ?case by simp
next
  case (Cons x xs)
  obtain k' b' where x: "x = (k', b')" by (cases x)
  show ?case
    using Cons keys_insert_box [of k b xs] unfolding x by auto
qed

lemma sorted_rescale_into:
  "sorted_wrt (<) (map fst acc) \<Longrightarrow> sorted_wrt (<) (map fst (rescale_into f xs acc))"
  by (induction f xs acc rule: rescale_into.induct) (simp_all add: sorted_insert_box)

lemma rescale_into_one:
  "sorted_wrt (<) (map fst (acc @ xs)) \<Longrightarrow> rescale_into 1 xs acc = acc @ xs"
proof (induction xs arbitrary: acc)
  case Nil
  show ?case by simp
next
  case (Cons x xs)
  obtain k b where x: "x = (k, b)" by (cases x)
  have "\<forall>k' \<in> set (map fst acc). k' < k"
    using Cons.prems unfolding x by (auto simp: sorted_wrt_append)
  then have i: "insert_box k b acc = acc @ [(k, b)]" by (rule insert_box_after)
  have "rescale_into 1 xs (acc @ [(k, b)]) = (acc @ [(k, b)]) @ xs"
    using Cons.prems unfolding x by (intro Cons.IH) simp
  then show ?case unfolding x by (simp add: i)
qed

lemma ScalePoints_one: "ordered_store s \<Longrightarrow> ScalePoints 1 s = s\<lparr>time_scale := 1\<rparr>"
  using rescale_into_one [of "[]" "boxes s"] by (simp add: ordered_store_def ScalePoints_def)

lemma ordered_store_ScalePoints: "ordered_store (ScalePoints f s)"
  using sorted_rescale_into [of "[]" f "boxes s"] by (simp add: ordered_store_def ScalePoints_def)

lemma ordered_store_clear: "ordered_store (clear s)"
  by (simp add: ordered_store_def clear_def)

lemma ordered_store_add_record: "ordered_store s \<Longrightarrow> ordered_store (add_record r s)"
  by (simp add: ordered_store_def boxes_add_record sorted_insert_box)

lemma ordered_store_fold_add_record: "ordered_store s \<Longrightarrow> ordered_store (fold add_record rs s)"
  by (induction rs arbitrary: s) (simp_all add: ordered_store_add_record)

lemma fold_add_record_rate: "base_rate (fold add_record rs s) = base_rate s"
  by (induction rs arbitrary: s) (simp_all add: add_record_def AddBox_def Let_def)

lemma fold_add_record_scale: "time_scale (fold add_record rs s) = time_scale s"
  by (induction rs arbitrary: s) (simp_all add: add_record_def AddBox_def Let_def)

lemma boxes_fold_add_record:
  "boxes s = boxes s' \<Longrightarrow> boxes (fold add_record rs s) = boxes (fold add_record rs s')"
  by (induction rs arbitrary: s s') (simp_all add: boxes_add_record)

text \<open>The store does what the spec's scenarios A and D ask of it.\<close>

lemma scenario_A:
  "Contains (AddBox 20 (1/4) (7/20) (3/25) (3/25) (AddBox 10 (1/5) (3/10) (1/10) (1/10) no_boxes)) 10 \<and>
   \<not> Contains (AddBox 20 (1/4) (7/20) (3/25) (3/25) (AddBox 10 (1/5) (3/10) (1/10) (1/10) no_boxes)) 15 \<and>
   Contains (AddBox 20 (1/4) (7/20) (3/25) (3/25) (AddBox 10 (1/5) (3/10) (1/10) (1/10) no_boxes)) 20"
  by (simp add: Contains_def AddBox_def no_boxes_def)

lemma scenario_D:
  "map fst (boxes (ScalePoints 2 (no_boxes\<lparr>boxes := [(3, box3), (7, box9)]\<rparr>))) = [6, 14] \<and>
   map fst (boxes (ScalePoints (1/2) (ScalePoints 2 (no_boxes\<lparr>boxes := [(3, box3), (7, box9)]\<rparr>))))
     = [3, 7]"
  by (simp add: ScalePoints_def no_boxes_def)

subsection \<open>The update with a path\<close>

lemma SetJsonValue_TimeScale_set:
  assumes "SetJsonValue E j t = (t', None)"
    and "member j ''TimeScale'' = Inr v" and "v \<noteq> JNull" and "asDouble v = Inr d"
  shows "TimeScale t' = d"
proof -
  from SetJsonValue_ok_steps [OF assms(1)] obtain t2 t3 t5 where
    "set_TimeScale j t2 = (t3, None)" and
    "set_protobuf_data_path E j
       (t3\<lparr>trackedData := ScalePoints (TimeScale t3) (SetBaseFPS (BaseFPS t3) (trackedData t))\<rparr>)
     = (t5, None)" and "TimeScale t' = TimeScale t3" by blast
  then show ?thesis
    using set_TimeScale_present [OF assms(2,3,4), of t2] by auto
qed

lemma SetJsonValue_loaded:
  assumes "SetJsonValue E j t = (t', None)"
    and "member j ''protobuf_data_path'' = Inr w" and "w \<noteq> JNull"
    and "asString (valueToString E) w = Inr p"
    and "ParseFromIstream E p = Some msg"
  shows "trackedData t' =
           fold add_record (filter accepted (frames msg))
             (clear (ScalePoints (TimeScale t') (SetBaseFPS (BaseFPS t') (trackedData t))))"
    and "protobuf_data_path t' = p"
proof -
  from SetJsonValue_ok_steps [OF assms(1)] obtain t2 t3 t5 where
    "set_TimeScale j t2 = (t3, None)" and
    s: "set_protobuf_data_path E j
          (t3\<lparr>trackedData := ScalePoints (TimeScale t3) (SetBaseFPS (BaseFPS t3) (trackedData t))\<rparr>)
        = (t5, None)" and
    e: "TimeScale t' = TimeScale t3" "BaseFPS t' = BaseFPS t3"
       "trackedData t' = trackedData t5" "protobuf_data_path t' = protobuf_data_path t5"
    by blast
  from s have t5: "t5 = fst (load_from_path E p
      (t3\<lparr>trackedData := ScalePoints (TimeScale t3) (SetBaseFPS (BaseFPS t3) (trackedData t))\<rparr>))"
    by (simp add: set_protobuf_data_path_present [OF assms(2,3,4)])
  show "trackedData t' =
           fold add_record (filter accepted (frames msg))
             (clear (ScalePoints (TimeScale t') (SetBaseFPS (BaseFPS t') (trackedData t))))"
    using e by (simp add: t5 load_from_path_Some [OF assms(5)])
  show "protobuf_data_path t' = p"
    using e by (simp add: t5 load_from_path_Some [OF assms(5)])
qed

lemma SetJsonValue_not_loaded:
  assumes "SetJsonValue E j t = (t', None)"
    and "member j ''protobuf_data_path'' = Inr w" and "w \<noteq> JNull"
    and "asString (valueToString E) w = Inr p"
    and "ParseFromIstream E p = None"
  shows "trackedData t' = ScalePoints (TimeScale t') (SetBaseFPS (BaseFPS t') (trackedData t))"
    and "protobuf_data_path t' = ''''"
proof -
  from SetJsonValue_ok_steps [OF assms(1)] obtain t2 t3 t5 where
    "set_TimeScale j t2 = (t3, None)" and
    s: "set_protobuf_data_path E j
          (t3\<lparr>trackedData := ScalePoints (TimeScale t3) (SetBaseFPS (BaseFPS t3) (trackedData t))\<rparr>)
        = (t5, None)" and
    e: "TimeScale t' = TimeScale t3" "BaseFPS t' = BaseFPS t3"
       "trackedData t' = trackedData t5" "protobuf_data_path t' = protobuf_data_path t5"
    by blast
  from s have t5: "t5 = fst (load_from_path E p
      (t3\<lparr>trackedData := ScalePoints (TimeScale t3) (SetBaseFPS (BaseFPS t3) (trackedData t))\<rparr>))"
    by (simp add: set_protobuf_data_path_present [OF assms(2,3,4)])
  show "trackedData t' = ScalePoints (TimeScale t') (SetBaseFPS (BaseFPS t') (trackedData t))"
    using e by (simp add: t5 load_from_path_None [OF assms(5)])
  show "protobuf_data_path t' = ''''"
    using e by (simp add: t5 load_from_path_None [OF assms(5)])
qed

text \<open>After every update that returns normally the store is ordered.\<close>

lemma ordered_store_SetJsonValue:
  assumes "SetJsonValue E j t = (t', None)"
  shows "ordered_store (trackedData t')"
proof -
  from SetJsonValue_ok_steps [OF assms] obtain t2 t3 t5 where
    "set_TimeScale j t2 = (t3, None)" and
    s: "set_protobuf_data_path E j
          (t3\<lparr>trackedData := ScalePoints (TimeScale t3) (SetBaseFPS (BaseFPS t3) (trackedData t))\<rparr>)
        = (t5, None)" and
    e: "trackedData t' = trackedData t5"
    by blast
  let ?t4 = "t3\<lparr>trackedData := ScalePoints (TimeScale t3) (SetBaseFPS (BaseFPS t3) (trackedData t))\<rparr>"
  have o4: "ordered_store (trackedData ?t4)"
    by (simp add: ordered_store_ScalePoints)
  have "ordered_store (trackedData (fst (set_protobuf_data_path E j ?t4)))"
  proof (cases "member j ''protobuf_data_path''")
    case (Inl x)
    then show ?thesis using o4 by (simp add: set_protobuf_data_path_def if_member_def eval_then_def)
  next
    case (Inr w)
    show ?thesis
    proof (cases "w = JNull")
      case True
      then show ?thesis
        using o4 Inr by (simp add: set_protobuf_data_path_def if_member_absent ok_def)
    next
      case False
      show ?thesis
      proof (cases "asString (valueToString E) w")
        case (Inl x)
        then show ?thesis
          using o4 by (simp add: set_protobuf_data_path_def if_member_present [OF Inr False] eval_then_def)
      next
        case p: (Inr p)
        show ?thesis
        proof (cases "ParseFromIstream E p")
          case None
          then show ?thesis
            using o4 by (simp add: set_protobuf_data_path_present [OF Inr False p] load_from_path_None)
        next
          case (Some msg)
          then show ?thesis
            by (simp add: set_protobuf_data_path_present [OF Inr False p] load_from_path_Some
                  ordered_store_fold_add_record ordered_store_clear)
        qed
      qed
    qed
  qed
  then show ?thesis using s e by simp
qed

subsection \<open>Concrete updates\<close>

lemma update_scale_and_path:
  "SetJsonValue world doc_scale_and_path fresh_tracker = (scaled_tracker, None)"
  by (simp add: SetJsonValue_def set_parent_def set_BaseFPS_def set_TimeScale_def
        scale_trackedData_def set_protobuf_data_path_def set_curve_def if_member_def
        eval_then_def assign_def ok_def isNull_def load_from_path_def LoadTrackedData_def
        load_frame_def AddBox_def clear_def ScalePoints_def SetBaseFPS_def
        world_def doc_scale_and_path_def fresh_tracker_def scaled_tracker_def no_boxes_def
        track_message_def frame3_def frame5_negative_def frame7_reversed_def box3_def Let_def)

lemma update_scale_and_path_used:
  "SetJsonValue world doc_scale_and_path used_tracker =
     (scaled_tracker, None)"
  by (simp add: SetJsonValue_def set_parent_def set_BaseFPS_def set_TimeScale_def
        scale_trackedData_def set_protobuf_data_path_def set_curve_def if_member_def
        eval_then_def assign_def ok_def isNull_def load_from_path_def LoadTrackedData_def
        load_frame_def AddBox_def clear_def ScalePoints_def SetBaseFPS_def
        world_def doc_scale_and_path_def fresh_tracker_def scaled_tracker_def no_boxes_def
        used_tracker_def
        track_message_def frame3_def frame5_negative_def frame7_reversed_def box3_def Let_def)

lemma update_empty:
  "SetJsonValue world (JObject []) scaled_tracker =
     (scaled_tracker\<lparr>trackedData :=
        \<lparr>boxes = [(6, box3), (14, \<lparr>cx = 3/4, cy = 3/4, width = - (1/2), height = - (1/4)\<rparr>)],
         base_rate = \<lparr>num = 30, den = 1\<rparr>, time_scale = 2\<rparr>\<rparr>, None)"
  by (simp add: SetJsonValue_def set_parent_def set_BaseFPS_def set_TimeScale_def
        scale_trackedData_def set_protobuf_data_path_def set_curve_def if_member_def
        eval_then_def assign_def ok_def isNull_def ScalePoints_def SetBaseFPS_def
        world_def fresh_tracker_def scaled_tracker_def)

lemma update_missing_path:
  "SetJsonValue world doc_missing_path used_tracker =
     (used_tracker\<lparr>protobuf_data_path := ''''\<rparr>, None)"
  by (simp add: SetJsonValue_def set_parent_def set_BaseFPS_def set_TimeScale_def
        scale_trackedData_def set_protobuf_data_path_def set_curve_def if_member_def
        eval_then_def assign_def ok_def isNull_def load_from_path_def LoadTrackedData_def
        ScalePoints_def SetBaseFPS_def
        world_def doc_missing_path_def fresh_tracker_def used_tracker_def no_boxes_def)

subsection \<open>The order of rescaling and loading in an update\<close>

text \<open>
  The update sets the time scale 2 and the track file with accepted records at the
  frames 3 and 7.  After it the store holds the frames 3 and 7, as the file gives them;
  rescaling after the load would have moved them to 6 and 14.
\<close>

theorem load_then_scale_counterexample:
  "member doc_scale_and_path ''TimeScale'' = Inr (JInt 2) \<and>
   member doc_scale_and_path ''protobuf_data_path'' = Inr (JString ''track.data'') \<and>
   SetJsonValue world doc_scale_and_path fresh_tracker = (scaled_tracker, None) \<and>
   Contains (trackedData scaled_tracker) 3 \<and>
   \<not> Contains (trackedData scaled_tracker) 6 \<and>
   \<not> Contains
       (ScalePoints 2 (trackedData (snd (LoadTrackedData world ''track.data'' fresh_tracker)))) 3 \<and>
   Contains
     (ScalePoints 2 (trackedData (snd (LoadTrackedData world ''track.data'' fresh_tracker)))) 6"
proof -
  have l: "boxes (trackedData (snd (LoadTrackedData world ''track.data'' fresh_tracker))) =
      [(3, box3), (7, \<lparr>cx = 3/4, cy = 3/4, width = - (1/2), height = - (1/4)\<rparr>)]"
    by (simp add: LoadTrackedData_def load_frame_def AddBox_def clear_def world_def
          fresh_tracker_def no_boxes_def track_message_def frame3_def frame5_negative_def
          frame7_reversed_def box3_def Let_def)
  have m: "member doc_scale_and_path ''TimeScale'' = Inr (JInt 2)"
    "member doc_scale_and_path ''protobuf_data_path'' = Inr (JString ''track.data'')"
    by (simp_all add: doc_scale_and_path_def)
  have c: "Contains (trackedData scaled_tracker) 3" "\<not> Contains (trackedData scaled_tracker) 6"
    by (simp_all add: Contains_def scaled_tracker_def)
  have d: "\<not> Contains
       (ScalePoints 2 (trackedData (snd (LoadTrackedData world ''track.data'' fresh_tracker)))) 3"
    "Contains
     (ScalePoints 2 (trackedData (snd (LoadTrackedData world ''track.data'' fresh_tracker)))) 6"
    by (simp_all add: l Contains_def ScalePoints_def)
  show ?thesis
    using m update_scale_and_path c d by blast
qed

text \<open>
  Claim C1, amended.  When one update that returns normally supplies a time scale and a
  track path whose file parses, the effect applies \<open>SetBaseFPS\<close> and \<open>ScalePoints\<close> to
  the store before the load: the load then clears that store and fills it with the
  accepted records of the file under the frame numbers of the file.  The store keeps the
  new rate and time scale; no frame number of the file is rescaled by this update.
\<close>

theorem scale_before_load:
  assumes "SetJsonValue E j t = (t', None)"
    and "member j ''TimeScale'' = Inr v" and "v \<noteq> JNull" and "asDouble v = Inr d"
    and "member j ''protobuf_data_path'' = Inr w" and "w \<noteq> JNull"
    and "asString (valueToString E) w = Inr p"
    and "ParseFromIstream E p = Some msg"
  shows "trackedData t' =
           fold add_record (filter accepted (frames msg))
             (clear (ScalePoints d (SetBaseFPS (BaseFPS t') (trackedData t)))) \<and>
         boxes (trackedData t') =
           boxes (fold add_record (filter accepted (frames msg)) (clear (trackedData t))) \<and>
         time_scale (trackedData t') = d \<and> base_rate (trackedData t') = BaseFPS t' \<and>
         (\<forall>f. Contains (trackedData t') f = (f \<in> frame_id ` set (filter accepted (frames msg))))"
proof -
  have ts: "TimeScale t' = d"
    using assms(1,2,3,4) by (rule SetJsonValue_TimeScale_set)
  have a: "trackedData t' =
           fold add_record (filter accepted (frames msg))
             (clear (ScalePoints d (SetBaseFPS (BaseFPS t') (trackedData t))))"
    using SetJsonValue_loaded(1) [OF assms(1,5,6,7,8)] unfolding ts .
  have b: "boxes (trackedData t') =
           boxes (fold add_record (filter accepted (frames msg)) (clear (trackedData t)))"
    unfolding a by (rule boxes_fold_add_record) (simp add: clear_def)
  have c: "time_scale (trackedData t') = d" "base_rate (trackedData t') = BaseFPS t'"
    unfolding a
    by (simp_all add: fold_add_record_scale fold_add_record_rate clear_def ScalePoints_def
          SetBaseFPS_def)
  have d: "\<forall>f. Contains (trackedData t') f = (f \<in> frame_id ` set (filter accepted (frames msg)))"
    by (simp add: Contains_def b map_of_loaded map_of_rev_keys del: set_filter)
  show ?thesis using a b c d by blast
qed

theorem scale_before_load_witness:
  "SetJsonValue world doc_scale_and_path used_tracker = (scaled_tracker, None) \<and>
   member doc_scale_and_path ''TimeScale'' = Inr (JInt 2) \<and> JInt 2 \<noteq> JNull \<and>
   asDouble (JInt 2) = Inr 2 \<and>
   member doc_scale_and_path ''protobuf_data_path'' = Inr (JString ''track.data'') \<and>
   JString ''track.data'' \<noteq> JNull \<and>
   asString (valueToString world) (JString ''track.data'') = Inr ''track.data'' \<and>
   ParseFromIstream world ''track.data'' = Some track_message \<and>
   boxes (trackedData scaled_tracker) =
     boxes (fold add_record (filter accepted (frames track_message)) (clear (trackedData used_tracker))) \<and>
   time_scale (trackedData scaled_tracker) = 2 \<and>
   Contains (trackedData scaled_tracker) 7 = (7 \<in> frame_id ` set (filter accepted (frames track_message)))"
proof -
  note h1 = update_scale_and_path_used
  have h2: "member doc_scale_and_path ''TimeScale'' = Inr (JInt 2)"
    by (simp add: doc_scale_and_path_def)
  have h3: "JInt 2 \<noteq> JNull" by simp
  have h4: "asDouble (JInt 2) = Inr 2" by simp
  have h5: "member doc_scale_and_path ''protobuf_data_path'' = Inr (JString ''track.data'')"
    by (simp add: doc_scale_and_path_def)
  have h6: "JString ''track.data'' \<noteq> JNull" by simp
  have h7: "asString (valueToString world) (JString ''track.data'') = Inr ''track.data''" by simp
  have h8: "ParseFromIstream world ''track.data'' = Some track_message"
    by (simp add: world_def)
  note th = scale_before_load [OF h1 h2 h3 h4 h5 h6 h7 h8]
  from th have a: "boxes (trackedData scaled_tracker) =
     boxes (fold add_record (filter accepted (frames track_message)) (clear (trackedData used_tracker)))"
    by blast
  from th have b: "time_scale (trackedData scaled_tracker) = 2" by blast
  from th have c: "Contains (trackedData scaled_tracker) 7 =
      (7 \<in> frame_id ` set (filter accepted (frames track_message)))" by blast
  show ?thesis using h1 h2 h3 h4 h5 h6 h7 h8 a b c by blast
qed

subsection \<open>A load that fails\<close>

text \<open>
  Claim C3.  When the track file does not parse, \<open>LoadTrackedData\<close> returns false and
  leaves the effect, and so the store, as it was; the model has no exception result for
  it, as the function throws none.  Its caller in \<open>SetJsonValue\<close> (lines 236 to 243) then
  resets the path to the empty string: after an update that names such a file the path
  is empty and the store is the one the load was called on.
\<close>

theorem failed_load_keeps_store:
  assumes "ParseFromIstream E p = None"
  shows "LoadTrackedData E p t = (False, t) \<and>
         load_from_path E p t = (t\<lparr>protobuf_data_path := ''''\<rparr>, None) \<and>
         (\<forall>j w t0 t'. member j ''protobuf_data_path'' = Inr w \<and> w \<noteq> JNull \<and>
              asString (valueToString E) w = Inr p \<and> SetJsonValue E j t0 = (t', None) \<longrightarrow>
            protobuf_data_path t' = '''' \<and>
            trackedData t' = ScalePoints (TimeScale t') (SetBaseFPS (BaseFPS t') (trackedData t0)))"
proof -
  have a: "LoadTrackedData E p t = (False, t)"
    using assms by (simp add: LoadTrackedData_def)
  have b: "load_from_path E p t = (t\<lparr>protobuf_data_path := ''''\<rparr>, None)"
    using assms by (rule load_from_path_None)
  have c: "protobuf_data_path t' = '''' \<and>
           trackedData t' = ScalePoints (TimeScale t') (SetBaseFPS (BaseFPS t') (trackedData t0))"
    if "member j ''protobuf_data_path'' = Inr w" "w \<noteq> JNull"
       "asString (valueToString E) w = Inr p" "SetJsonValue E j t0 = (t', None)"
    for j w and t0 t' :: "('a, 'b) Tracker"
    using SetJsonValue_not_loaded [OF that(4) that(1,2,3) assms] by simp
  show ?thesis using a b c by blast
qed

theorem failed_load_keeps_store_witness:
  "ParseFromIstream world ''missing.data'' = None \<and>
   LoadTrackedData world ''missing.data'' used_tracker = (False, used_tracker) \<and>
   member doc_missing_path ''protobuf_data_path'' = Inr (JString ''missing.data'') \<and>
   JString ''missing.data'' \<noteq> JNull \<and>
   asString (valueToString world) (JString ''missing.data'') = Inr ''missing.data'' \<and>
   SetJsonValue world doc_missing_path used_tracker =
     (used_tracker\<lparr>protobuf_data_path := ''''\<rparr>, None) \<and>
   protobuf_data_path (used_tracker\<lparr>protobuf_data_path := ''''\<rparr>) = '''' \<and>
   trackedData (used_tracker\<lparr>protobuf_data_path := ''''\<rparr>) = trackedData used_tracker"
proof -
  have h: "ParseFromIstream world ''missing.data'' = None"
    by (simp add: world_def)
  have m: "member doc_missing_path ''protobuf_data_path'' = Inr (JString ''missing.data'')"
    by (simp add: doc_missing_path_def)
  have s: "asString (valueToString world) (JString ''missing.data'') = Inr ''missing.data''"
    by simp
  note th = failed_load_keeps_store [OF h, of used_tracker]
  from th have a: "LoadTrackedData world ''missing.data'' used_tracker = (False, used_tracker)"
    by blast
  from th m s update_missing_path
  have b: "protobuf_data_path (used_tracker\<lparr>protobuf_data_path := ''''\<rparr>) = ''''"
    by simp
  show ?thesis using h a m s update_missing_path b by simp
qed

subsection \<open>An update without recognized keys\<close>

text \<open>
  After the time scale 2 and the track file were set, the store holds the frames 3 and
  7.  An update with the empty object changes the effect: it rescales the store once
  more, to the frames 6 and 14.
\<close>

theorem empty_update_counterexample:
  "SetJsonValue world doc_scale_and_path fresh_tracker = (scaled_tracker, None) \<and>
   no_recognized_key (JObject []) \<and>
   fst (SetJsonValue world (JObject []) scaled_tracker) \<noteq> scaled_tracker \<and>
   Contains (trackedData scaled_tracker) 3 \<and>
   \<not> Contains (trackedData (fst (SetJsonValue world (JObject []) scaled_tracker))) 3 \<and>
   Contains (trackedData (fst (SetJsonValue world (JObject []) scaled_tracker))) 6"
proof -
  have a: "no_recognized_key (JObject [])"
    by (simp add: no_recognized_key_def recognized_keys_def curve_keys_def)
  have b: "Contains (trackedData scaled_tracker) 3"
    by (simp add: Contains_def scaled_tracker_def)
  have c: "\<not> Contains (trackedData (fst (SetJsonValue world (JObject []) scaled_tracker))) 3"
    "Contains (trackedData (fst (SetJsonValue world (JObject []) scaled_tracker))) 6"
    by (simp_all add: update_empty Contains_def)
  from b c(1) have d: "fst (SetJsonValue world (JObject []) scaled_tracker) \<noteq> scaled_tracker"
    by auto
  show ?thesis using update_scale_and_path a b c d by blast
qed

lemma no_recognized_keyD:
  assumes "no_recognized_key j"
  shows "member j ''protobuf_data_path'' = Inr JNull" "member j ''BaseFPS'' = Inr JNull"
    "member j ''TimeScale'' = Inr JNull" "member j ''delta_x'' = Inr JNull"
    "member j ''delta_y'' = Inr JNull" "member j ''scale_x'' = Inr JNull"
    "member j ''scale_y'' = Inr JNull" "member j ''rotation'' = Inr JNull"
  using assms by (simp_all add: no_recognized_key_def recognized_keys_def curve_keys_def)

text \<open>
  Claim C2, amended.  In every update, with or without an exception, a recognized key
  that is absent (or null) leaves the base rate, the time scale, the path or the curve
  it names unchanged.  An update with none of the recognized keys, whose parent part
  returns normally, leaves these values unchanged and applies \<open>SetBaseFPS(BaseFPS)\<close> and
  \<open>ScalePoints(TimeScale)\<close> to the store once more: the samples of an ordered store stay
  under their frame numbers when the time scale is 1.
\<close>

theorem absent_keys_keep_values:
  "(member j ''BaseFPS'' = Inr JNull \<longrightarrow> BaseFPS (fst (SetJsonValue E j t)) = BaseFPS t) \<and>
   (member j ''TimeScale'' = Inr JNull \<longrightarrow> TimeScale (fst (SetJsonValue E j t)) = TimeScale t) \<and>
   (member j ''protobuf_data_path'' = Inr JNull \<longrightarrow>
      protobuf_data_path (fst (SetJsonValue E j t)) = protobuf_data_path t) \<and>
   (member j ''delta_x'' = Inr JNull \<longrightarrow> delta_x (fst (SetJsonValue E j t)) = delta_x t) \<and>
   (member j ''delta_y'' = Inr JNull \<longrightarrow> delta_y (fst (SetJsonValue E j t)) = delta_y t) \<and>
   (member j ''scale_x'' = Inr JNull \<longrightarrow> scale_x (fst (SetJsonValue E j t)) = scale_x t) \<and>
   (member j ''scale_y'' = Inr JNull \<longrightarrow> scale_y (fst (SetJsonValue E j t)) = scale_y t) \<and>
   (member j ''rotation'' = Inr JNull \<longrightarrow> rotation (fst (SetJsonValue E j t)) = rotation t) \<and>
   (no_recognized_key j \<and> EffectBase_SetJsonValue E j (base t) = (b, None) \<longrightarrow>
      SetJsonValue E j t =
        (t\<lparr>base := b,
           trackedData := ScalePoints (TimeScale t) (SetBaseFPS (BaseFPS t) (trackedData t))\<rparr>,
         None) \<and>
      (TimeScale t = 1 \<and> ordered_store (trackedData t) \<longrightarrow>
         boxes (trackedData (fst (SetJsonValue E j t))) = boxes (trackedData t)))"
proof -
  have n: "SetJsonValue E j t =
        (t\<lparr>base := b,
           trackedData := ScalePoints (TimeScale t) (SetBaseFPS (BaseFPS t) (trackedData t))\<rparr>,
         None)"
    if "no_recognized_key j" "EffectBase_SetJsonValue E j (base t) = (b, None)"
    using that(2) no_recognized_keyD(2,3,1,4,5,6,7,8) [OF that(1)] by (rule SetJsonValue_no_keys)
  have o: "boxes (trackedData (fst (SetJsonValue E j t))) = boxes (trackedData t)"
    if "no_recognized_key j" "EffectBase_SetJsonValue E j (base t) = (b, None)"
      "TimeScale t = 1" "ordered_store (trackedData t)"
  proof -
    have "ordered_store (SetBaseFPS (BaseFPS t) (trackedData t))"
      using that(4) by (simp add: ordered_store_def SetBaseFPS_def)
    then show ?thesis
      by (simp add: n [OF that(1,2)] that(3) ScalePoints_one SetBaseFPS_def)
  qed
  show ?thesis
    using keepsD [OF keeps_BaseFPS_if_absent, of j E t]
      keepsD [OF keeps_TimeScale_if_absent, of j E t]
      keepsD [OF keeps_path_if_absent, of j E t]
      keepsD [OF keeps_delta_x_if_absent, of j E t]
      keepsD [OF keeps_delta_y_if_absent, of j E t]
      keepsD [OF keeps_scale_x_if_absent, of j E t]
      keepsD [OF keeps_scale_y_if_absent, of j E t]
      keepsD [OF keeps_rotation_if_absent, of j E t]
      n o
    by blast
qed

theorem absent_keys_keep_values_witness:
  "member doc_missing_path ''TimeScale'' = Inr JNull \<and>
   TimeScale (fst (SetJsonValue world doc_missing_path used_tracker)) = TimeScale used_tracker \<and>
   no_recognized_key (JObject []) \<and>
   EffectBase_SetJsonValue world (JObject []) (base used_tracker) = ((), None) \<and>
   TimeScale used_tracker = 1 \<and> ordered_store (trackedData used_tracker) \<and>
   SetJsonValue world (JObject []) used_tracker =
     (used_tracker\<lparr>base := (),
        trackedData := ScalePoints (TimeScale used_tracker)
          (SetBaseFPS (BaseFPS used_tracker) (trackedData used_tracker))\<rparr>, None) \<and>
   boxes (trackedData (fst (SetJsonValue world (JObject []) used_tracker))) =
     boxes (trackedData used_tracker)"
proof -
  have h1: "member doc_missing_path ''TimeScale'' = Inr JNull"
    by (simp add: doc_missing_path_def)
  have h2: "no_recognized_key (JObject [])"
    by (simp add: no_recognized_key_def recognized_keys_def curve_keys_def)
  have h3: "EffectBase_SetJsonValue world (JObject []) (base used_tracker) = ((), None)"
    by (simp add: world_def ok_def)
  have h4: "TimeScale used_tracker = 1"
    by (simp add: used_tracker_def fresh_tracker_def)
  have h5: "ordered_store (trackedData used_tracker)"
    by (simp add: ordered_store_def used_tracker_def fresh_tracker_def no_boxes_def)
  from h1 absent_keys_keep_values [of doc_missing_path world used_tracker]
  have a: "TimeScale (fst (SetJsonValue world doc_missing_path used_tracker)) = TimeScale used_tracker"
    by blast
  note th = absent_keys_keep_values [of "JObject []" world used_tracker "()"]
  from th h2 h3 have b: "SetJsonValue world (JObject []) used_tracker =
     (used_tracker\<lparr>base := (),
        trackedData := ScalePoints (TimeScale used_tracker)
          (SetBaseFPS (BaseFPS used_tracker) (trackedData used_tracker))\<rparr>, None)"
    by blast
  from th h2 h3 h4 h5 have c: "boxes (trackedData (fst (SetJsonValue world (JObject []) used_tracker))) =
     boxes (trackedData used_tracker)"
    by blast
  show ?thesis using h1 a h2 h3 h4 h5 b c by blast
qed

subsection \<open>Exceptions of SetJson\<close>

lemma SetJson_unparseable:
  "parse_json E v = None \<Longrightarrow> SetJson E v t = (t, Some InvalidJSON)"
  by (simp add: SetJson_def try_catch_def eval_then_def stringToJson_def throw_def)

lemma SetJson_parsed:
  "parse_json E v = Some j \<Longrightarrow>
   SetJson E v t =
     (fst (SetJsonValue E j t),
      if snd (SetJsonValue E j t) = None then None else Some InvalidJSON)"
  by (cases "SetJsonValue E j t")
     (auto simp: SetJson_def try_catch_def eval_then_def stringToJson_def throw_def
        split: option.splits)

lemma run_throws:
  "a \<in> set as \<Longrightarrow> (\<And>s. snd (a s) \<noteq> None) \<Longrightarrow> snd (run as s) \<noteq> None"
proof (induction as arbitrary: s)
  case Nil
  then show ?case by simp
next
  case (Cons b bs)
  show ?case
  proof (cases "b s")
    case (Pair s' e)
    show ?thesis
    proof (cases e)
      case None
      with Pair Cons.prems(2) [of s] have "a \<noteq> b" by auto
      with Cons.prems(1) have "a \<in> set bs" by simp
      then have "snd (run bs s') \<noteq> None" using Cons.prems(2) by (rule Cons.IH)
      then show ?thesis using Pair None by simp
    next
      case (Some x)
      then show ?thesis using Pair by simp
    qed
  qed
qed

lemma set_TimeScale_throws:
  "fails_at j ''TimeScale'' asDouble \<Longrightarrow> snd (set_TimeScale j s) \<noteq> None"
  by (auto simp: fails_at_def set_TimeScale_def if_member_def eval_then_def isl_def
        split: sum.splits)

lemma set_protobuf_data_path_throws:
  "fails_at j ''protobuf_data_path'' (asString (valueToString E)) \<Longrightarrow>
   snd (set_protobuf_data_path E j s) \<noteq> None"
  by (auto simp: fails_at_def set_protobuf_data_path_def if_member_def eval_then_def isl_def
        split: sum.splits)

lemma set_rate_part_throws:
  "fails_at fps key asInt \<Longrightarrow>
   snd (if_member fps key (\<lambda>n. eval_then (asInt n) (\<lambda>i. assign (f i))) s) \<noteq> None"
  by (auto simp: fails_at_def if_member_def eval_then_def isl_def split: sum.splits)

lemma eval_then_Inr: "eval_then (Inr v) f = f v"
  by (rule ext) (simp add: eval_then_def)

lemma set_BaseFPS_throws:
  assumes "case member j ''BaseFPS'' of
             Inl e \<Rightarrow> True
           | Inr fps \<Rightarrow> isObject fps \<and> (fails_at fps ''num'' asInt \<or> fails_at fps ''den'' asInt)"
  shows "snd (set_BaseFPS j s) \<noteq> None"
proof (cases "member j ''BaseFPS''")
  case (Inl e)
  then show ?thesis by (simp add: set_BaseFPS_def eval_then_def)
next
  case (Inr fps)
  with assms have o: "isObject fps"
    and f: "fails_at fps ''num'' asInt \<or> fails_at fps ''den'' asInt" by simp_all
  from o have nn: "\<not> isNull fps" by (cases fps) (simp_all add: isNull_def)
  have r: "set_BaseFPS j s =
      run [if_member fps ''num'' (\<lambda>n. eval_then (asInt n) (\<lambda>i.
             assign (\<lambda>t. t\<lparr>BaseFPS := (BaseFPS t)\<lparr>num := i\<rparr>\<rparr>))),
           if_member fps ''den'' (\<lambda>d. eval_then (asInt d) (\<lambda>i.
             assign (\<lambda>t. t\<lparr>BaseFPS := (BaseFPS t)\<lparr>den := i\<rparr>\<rparr>)))] s"
    using o nn by (simp add: set_BaseFPS_def Inr eval_then_Inr del: run.simps)
  from f show ?thesis
  proof
    assume n: "fails_at fps ''num'' asInt"
    show ?thesis
      unfolding r
      by (rule run_throws [where a = "if_member fps ''num'' (\<lambda>n. eval_then (asInt n) (\<lambda>i.
             assign (\<lambda>t. t\<lparr>BaseFPS := (BaseFPS t)\<lparr>num := i\<rparr>\<rparr>)))"])
         (simp_all add: set_rate_part_throws [OF n])
  next
    assume d: "fails_at fps ''den'' asInt"
    show ?thesis
      unfolding r
      by (rule run_throws [where a = "if_member fps ''den'' (\<lambda>n. eval_then (asInt n) (\<lambda>i.
             assign (\<lambda>t. t\<lparr>BaseFPS := (BaseFPS t)\<lparr>den := i\<rparr>\<rparr>)))"])
         (simp_all add: set_rate_part_throws [OF d])
  qed
qed

lemma conversion_fails_throws:
  assumes "conversion_fails E j"
  shows "snd (SetJsonValue E j t) \<noteq> None"
proof -
  from assms consider
      (scale) "fails_at j ''TimeScale'' asDouble"
    | (path) "fails_at j ''protobuf_data_path'' (asString (valueToString E))"
    | (rate) "case member j ''BaseFPS'' of
             Inl e \<Rightarrow> True
           | Inr fps \<Rightarrow> isObject fps \<and> (fails_at fps ''num'' asInt \<or> fails_at fps ''den'' asInt)"
    unfolding conversion_fails_def by blast
  then show ?thesis
  proof cases
    case scale
    show ?thesis
      unfolding SetJsonValue_def
      by (rule run_throws [where a = "set_TimeScale j"]) (simp_all add: set_TimeScale_throws [OF scale])
  next
    case path
    show ?thesis
      unfolding SetJsonValue_def
      by (rule run_throws [where a = "set_protobuf_data_path E j"])
         (simp_all add: set_protobuf_data_path_throws [OF path])
  next
    case rate
    show ?thesis
      unfolding SetJsonValue_def
      by (rule run_throws [where a = "set_BaseFPS j"]) (simp_all add: set_BaseFPS_throws [OF rate])
  qed
qed

lemma never_throwsI: "(\<And>s. snd (a s) = None) \<Longrightarrow> never_throws a"
  by (simp add: never_throws_def)

lemma never_throws_BaseFPS:
  assumes "key_ok kvs ''BaseFPS'' is_rate_pair"
  shows "never_throws (set_BaseFPS (JObject kvs))"
proof (cases "map_of kvs ''BaseFPS''")
  case None
  then have e: "set_BaseFPS (JObject kvs) = ok"
    by (intro set_BaseFPS_absent) simp
  show ?thesis by (rule never_throwsI) (simp add: e ok_def)
next
  case (Some fps)
  with assms have "is_rate_pair fps" by (simp add: key_ok_def)
  then obtain fkvs n d where fps: "fps = JObject fkvs"
    and n: "map_of fkvs ''num'' = Some (JInt n)" "- (2 ^ 31) \<le> n" "n \<le> 2 ^ 31 - 1"
    and d: "map_of fkvs ''den'' = Some (JInt d)" "- (2 ^ 31) \<le> d" "d \<le> 2 ^ 31 - 1"
    by (auto simp: is_rate_pair_def fits_int_def split: json.splits option.splits)
  show ?thesis
    by (rule never_throwsI)
       (use n d in \<open>simp add: set_BaseFPS_def Some fps eval_then_def if_member_def isNull_def
          assign_def\<close>)
qed

lemma never_throws_TimeScale:
  assumes "key_ok kvs ''TimeScale'' is_number"
  shows "never_throws (set_TimeScale (JObject kvs))"
  using assms
  by (auto simp: never_throws_def key_ok_def is_number_def set_TimeScale_def if_member_def
        eval_then_def assign_def ok_def isNull_def split: option.splits json.splits)

lemma never_throws_path:
  assumes "key_ok kvs ''protobuf_data_path'' is_string"
  shows "never_throws (set_protobuf_data_path E (JObject kvs))"
  using assms never_throwsD [OF load_from_path_never_throws, of E]
  by (auto simp: never_throws_def key_ok_def is_string_def set_protobuf_data_path_def
        if_member_def eval_then_def ok_def isNull_def split: option.splits json.splits)

lemma never_throws_curve:
  assumes "key_ok kvs key (\<lambda>v. \<forall>k. snd (Keyframe_SetJsonValue E v k) = None)"
  shows "never_throws (set_curve E (JObject kvs) key get put)"
  using assms
  by (auto simp: never_throws_def key_ok_def set_curve_def if_member_def eval_then_def ok_def
        isNull_def split_beta split: option.splits)

lemma set_BaseFPS_not_object: "rate_not_object j \<Longrightarrow> set_BaseFPS j = ok"
  by (rule ext) (simp add: rate_not_object_def set_BaseFPS_def eval_then_def split: sum.splits)

lemma keeps_BaseFPS_if_skipped:
  "rate_not_object j \<Longrightarrow> keeps BaseFPS (SetJsonValue E j)"
  unfolding SetJsonValue_def
  by (rule keeps_run)
     (auto simp: set_parent_keeps set_BaseFPS_not_object set_TimeScale_keeps
        scale_trackedData_keeps set_protobuf_data_path_keeps keeps_ok intro!: set_curve_keeps)

lemma never_throws_after_parent:
  assumes w: "well_formed_beside_rate E j"
    and r: "well_formed_rate j \<or> rate_not_object j"
    and p: "snd (EffectBase_SetJsonValue E j (base t)) = None"
  shows "snd (SetJsonValue E j t) = None"
proof -
  from w obtain kvs where j: "j = JObject kvs"
    by (cases j) (simp_all add: well_formed_beside_rate_def)
  from w have pa: "key_ok kvs ''protobuf_data_path'' is_string"
    and s: "key_ok kvs ''TimeScale'' is_number"
    and c: "\<And>key. key \<in> set curve_keys \<Longrightarrow>
              key_ok kvs key (\<lambda>v. \<forall>k. snd (Keyframe_SetJsonValue E v k) = None)"
    unfolding j well_formed_beside_rate_def by (simp_all add: list_all_iff)
  have 2: "never_throws (set_BaseFPS j :: ('a, 'b) Tracker action)"
    using r
  proof
    assume "well_formed_rate j"
    then have "key_ok kvs ''BaseFPS'' is_rate_pair"
      by (simp add: well_formed_rate_def j)
    then show ?thesis unfolding j by (rule never_throws_BaseFPS)
  next
    assume "rate_not_object j"
    then have "set_BaseFPS j = (ok :: ('a, 'b) Tracker action)"
      by (rule set_BaseFPS_not_object)
    then show ?thesis by (simp add: never_throws_def ok_def)
  qed
  have 4: "never_throws (scale_trackedData :: ('a, 'b) Tracker action)"
    by (simp add: never_throws_def scale_trackedData_def assign_def)
  have rest: "never_throws (run [
       set_BaseFPS j,
       set_TimeScale j,
       scale_trackedData,
       set_protobuf_data_path E j,
       set_curve E j ''delta_x'' delta_x (\<lambda>k t. t\<lparr>delta_x := k\<rparr>),
       set_curve E j ''delta_y'' delta_y (\<lambda>k t. t\<lparr>delta_y := k\<rparr>),
       set_curve E j ''scale_x'' scale_x (\<lambda>k t. t\<lparr>scale_x := k\<rparr>),
       set_curve E j ''scale_y'' scale_y (\<lambda>k t. t\<lparr>scale_y := k\<rparr>),
       set_curve E j ''rotation'' rotation (\<lambda>k t. t\<lparr>rotation := k\<rparr>)])"
    by (rule never_throws_run)
       (use 2 4 never_throws_TimeScale [OF s] never_throws_path [OF pa, of E]
          never_throws_curve [OF c] in \<open>auto simp: j curve_keys_def\<close>)
  obtain t1 where t1: "set_parent E j t = (t1, None)"
    using p by (simp add: set_parent_def split_beta)
  show ?thesis
    using never_throwsD [OF rest, of t1] by (simp add: SetJsonValue_def t1)
qed

text \<open>
  The text \<open>{"BaseFPS": [30, 1]}\<close> parses, and its base rate is an array, not a
  numerator/denominator pair.  \<open>SetJson\<close> does not raise on it: the test \<open>isObject()\<close> of
  line 221 skips the value, and the effect is left as it was.
\<close>

theorem rate_as_array_counterexample:
  "parse_json world text_rate_as_array = Some doc_rate_as_array \<and>
   member doc_rate_as_array ''BaseFPS'' = Inr (JArray [JInt 30, JInt 1]) \<and>
   \<not> is_rate_pair (JArray [JInt 30, JInt 1]) \<and>
   \<not> well_formed_document world doc_rate_as_array \<and>
   SetJson world text_rate_as_array fresh_tracker = (fresh_tracker, None)"
proof -
  have p: "parse_json world text_rate_as_array = Some doc_rate_as_array"
    by (simp add: world_def text_rate_as_array_def text_scale_and_path_def)
  have m: "member doc_rate_as_array ''BaseFPS'' = Inr (JArray [JInt 30, JInt 1])"
    by (simp add: doc_rate_as_array_def)
  have r: "\<not> is_rate_pair (JArray [JInt 30, JInt 1])"
    by (simp add: is_rate_pair_def)
  have w: "\<not> well_formed_document world doc_rate_as_array"
    by (simp add: well_formed_document_def well_formed_rate_def doc_rate_as_array_def key_ok_def
          is_rate_pair_def)
  have u: "SetJsonValue world doc_rate_as_array fresh_tracker = (fresh_tracker, None)"
    by (simp add: SetJsonValue_def set_parent_def set_BaseFPS_def set_TimeScale_def
          scale_trackedData_def set_protobuf_data_path_def set_curve_def if_member_def
          eval_then_def assign_def ok_def isNull_def ScalePoints_def SetBaseFPS_def
          world_def doc_rate_as_array_def fresh_tracker_def no_boxes_def)
  have s: "SetJson world text_rate_as_array fresh_tracker = (fresh_tracker, None)"
    by (simp add: SetJson_parsed [OF p] u)
  show ?thesis using p m r w s by blast
qed

text \<open>
  Claim C9, amended.  \<open>SetJson\<close> raises \<open>InvalidJSON\<close>, and nothing else, exactly when the
  text does not parse or \<open>SetJsonValue\<close> throws on the parsed document.  It raises on
  every document that is neither an object nor null and on every document with a time
  scale, a path or a \<open>num\<close> or \<open>den\<close> of an object under \<open>BaseFPS\<close> that does not convert
  to the type asked for.  It does not raise on a well-formed document on which the
  parent's loader returns normally; well-formed is an object whose recognized keys,
  where present, hold a string path, a pair of integers as the base rate, a number as
  the time scale and curves their loader takes.  A value under \<open>BaseFPS\<close> that is not an
  object is skipped: the base rate keeps its value in every case, and \<open>SetJson\<close> does
  not raise when the other recognized keys are well-formed and the parent's loader
  returns normally.
\<close>

theorem SetJson_raises:
  "(parse_json E v = None \<longrightarrow> SetJson E v t = (t, Some InvalidJSON)) \<and>
   (\<forall>j. parse_json E v = Some j \<longrightarrow>
      SetJson E v t =
        (fst (SetJsonValue E j t),
         if snd (SetJsonValue E j t) = None then None else Some InvalidJSON) \<and>
      (conversion_fails E j \<longrightarrow> snd (SetJson E v t) = Some InvalidJSON) \<and>
      (well_formed_document E j \<and> snd (EffectBase_SetJsonValue E j (base t)) = None \<longrightarrow>
         snd (SetJson E v t) = None) \<and>
      (rate_not_object j \<longrightarrow>
         BaseFPS (fst (SetJson E v t)) = BaseFPS t \<and>
         (well_formed_beside_rate E j \<and> snd (EffectBase_SetJsonValue E j (base t)) = None \<longrightarrow>
            snd (SetJson E v t) = None)))"
proof -
  have a: "SetJson E v t = (t, Some InvalidJSON)" if "parse_json E v = None"
    using that by (rule SetJson_unparseable)
  have b: "SetJson E v t =
        (fst (SetJsonValue E j t),
         if snd (SetJsonValue E j t) = None then None else Some InvalidJSON)"
    if "parse_json E v = Some j" for j
    using that by (rule SetJson_parsed)
  have c: "snd (SetJson E v t) = Some InvalidJSON"
    if "parse_json E v = Some j" "conversion_fails E j" for j
    using conversion_fails_throws [OF that(2), of t] by (simp add: b [OF that(1)])
  have d: "snd (SetJson E v t) = None"
    if "parse_json E v = Some j" "well_formed_document E j"
      "snd (EffectBase_SetJsonValue E j (base t)) = None" for j
    using never_throws_after_parent [of E j t] that(2,3)
    by (simp add: b [OF that(1)] well_formed_document_def)
  have e: "BaseFPS (fst (SetJson E v t)) = BaseFPS t"
    if "parse_json E v = Some j" "rate_not_object j" for j
    using keepsD [OF keeps_BaseFPS_if_skipped [OF that(2)], of E t]
    by (simp add: b [OF that(1)])
  have f: "snd (SetJson E v t) = None"
    if "parse_json E v = Some j" "rate_not_object j" "well_formed_beside_rate E j"
      "snd (EffectBase_SetJsonValue E j (base t)) = None" for j
    using never_throws_after_parent [of E j t] that(2,3,4) by (simp add: b [OF that(1)])
  show ?thesis using a b c d e f by blast
qed

theorem SetJson_raises_witness:
  "parse_json world ''{'' = None \<and>
   SetJson world ''{'' used_tracker = (used_tracker, Some InvalidJSON) \<and>
   parse_json world ''[30, 1]'' = Some (JArray [JInt 30, JInt 1]) \<and>
   conversion_fails world (JArray [JInt 30, JInt 1]) \<and>
   snd (SetJson world ''[30, 1]'' used_tracker) = Some InvalidJSON \<and>
   parse_json world text_full = Some doc_full \<and>
   well_formed_document world doc_full \<and>
   snd (EffectBase_SetJsonValue world doc_full (base used_tracker)) = None \<and>
   snd (SetJson world text_full used_tracker) = None \<and>
   parse_json world text_rate_as_array = Some doc_rate_as_array \<and>
   rate_not_object doc_rate_as_array \<and>
   well_formed_beside_rate world doc_rate_as_array \<and>
   snd (EffectBase_SetJsonValue world doc_rate_as_array (base used_tracker)) = None \<and>
   BaseFPS (fst (SetJson world text_rate_as_array used_tracker)) = BaseFPS used_tracker \<and>
   snd (SetJson world text_rate_as_array used_tracker) = None"
proof -
  have p1: "parse_json world ''{'' = None"
    by (simp add: world_def text_full_def text_rate_as_array_def text_scale_and_path_def
          text_missing_path_def)
  have p2: "parse_json world ''[30, 1]'' = Some (JArray [JInt 30, JInt 1])"
    by (simp add: world_def text_full_def text_rate_as_array_def text_scale_and_path_def
          text_missing_path_def)
  have p3: "parse_json world text_full = Some doc_full"
    by (simp add: world_def text_full_def text_rate_as_array_def text_scale_and_path_def
          text_missing_path_def)
  have p4: "parse_json world text_rate_as_array = Some doc_rate_as_array"
    by (simp add: world_def text_rate_as_array_def text_scale_and_path_def)
  have c: "conversion_fails world (JArray [JInt 30, JInt 1])"
    by (simp add: conversion_fails_def fails_at_def)
  have w: "well_formed_document world doc_full"
    by (simp add: well_formed_document_def well_formed_rate_def well_formed_beside_rate_def
          doc_full_def key_ok_def is_rate_pair_def fits_int_def is_number_def curve_keys_def
          world_def constant_curve_def)
  have e3: "snd (EffectBase_SetJsonValue world doc_full (base used_tracker)) = None"
    by (simp add: world_def ok_def)
  have n: "rate_not_object doc_rate_as_array"
    by (simp add: rate_not_object_def doc_rate_as_array_def)
  have w4: "well_formed_beside_rate world doc_rate_as_array"
    by (simp add: well_formed_beside_rate_def doc_rate_as_array_def key_ok_def curve_keys_def)
  have e4: "snd (EffectBase_SetJsonValue world doc_rate_as_array (base used_tracker)) = None"
    by (simp add: world_def ok_def)
  from p1 SetJson_raises [of world "''{''" used_tracker]
  have a1: "SetJson world ''{'' used_tracker = (used_tracker, Some InvalidJSON)" by blast
  from p2 c SetJson_raises [of world "''[30, 1]''" used_tracker]
  have a2: "snd (SetJson world ''[30, 1]'' used_tracker) = Some InvalidJSON" by blast
  from p3 w e3 SetJson_raises [of world text_full used_tracker]
  have a3: "snd (SetJson world text_full used_tracker) = None" by blast
  from p4 n SetJson_raises [of world text_rate_as_array used_tracker]
  have a4: "BaseFPS (fst (SetJson world text_rate_as_array used_tracker)) = BaseFPS used_tracker"
    by blast
  from p4 n w4 e4 SetJson_raises [of world text_rate_as_array used_tracker]
  have a5: "snd (SetJson world text_rate_as_array used_tracker) = None" by blast
  show ?thesis using p1 a1 p2 c a2 p3 w e3 a3 p4 n w4 e4 a4 a5 by blast
qed

end
